theory Spec2Isabelle
  imports Main "HOL-Library.Sublist" "HOL-Library.AList"
begin

section \<open>The TAMS scraper (main.js) as HOL functions\<close>

text \<open>
  The program drives a browser through selenium-webdriver, probes the portal with axios
  and collects the report tables into one object. Its own code is translated function by
  function; the libraries it calls (axios, selenium-webdriver, the URL class, Date) are
  parameters of the model, collected in the record \<open>env\<close>.

  Strings are \<open>char list\<close>s of ASCII characters; numbers that the program only uses as
  integers are \<open>int\<close> or \<open>nat\<close>. Console output is not modelled.
\<close>

subsection \<open>String primitives\<close>

text \<open>
  \<open>String.prototype.trim\<close> removes white space and line terminators at both ends; in
  the ASCII range these are the code points 9 to 13 and 32.
\<close>

definition is_space :: "char \<Rightarrow> bool" where
  "is_space c = ((of_char c :: nat) \<in> {9, 10, 11, 12, 13, 32})"

definition trim :: "string \<Rightarrow> string" where
  "trim s = rev (dropWhile is_space (rev (dropWhile is_space s)))"

text \<open>\<open>s.replace(/a/g, b)\<close> for single characters \<open>a\<close> and \<open>b\<close>.\<close>

definition replace_all :: "char \<Rightarrow> char \<Rightarrow> string \<Rightarrow> string" where
  "replace_all a b s = map (\<lambda>c. if c = a then b else c) s"

definition toLowerCase_char :: "char \<Rightarrow> char" where
  "toLowerCase_char c =
     (let n = (of_char c :: nat) in if 65 \<le> n \<and> n \<le> 90 then char_of (n + 32) else c)"

definition toLowerCase :: "string \<Rightarrow> string" where
  "toLowerCase s = map toLowerCase_char s"

text \<open>\<open>hay.includes(needle)\<close>: the needle occurs in the hay as a contiguous run.\<close>

fun str_includes :: "string \<Rightarrow> string \<Rightarrow> bool" where
  "str_includes [] needle = (needle = [])"
| "str_includes (c # cs) needle = (prefix needle (c # cs) \<or> str_includes cs needle)"

text \<open>
  The header key of scrapeTableData (line 179):
  \<open>text.trim().replace(/\n/g, ' ').replace(/ /g, '_').toLowerCase()\<close>.
\<close>

definition normalize_header :: "string \<Rightarrow> string" where
  "normalize_header text =
     toLowerCase (replace_all (CHR '' '') (CHR ''_'')
       (replace_all (CHR 0x0A) (CHR '' '') (trim text)))"

subsection \<open>Month and year of an attendance pass\<close>

text \<open>
  The remainder operator of JavaScript truncates towards zero: the result has the sign
  of the dividend.
\<close>

definition js_rem :: "int \<Rightarrow> int \<Rightarrow> int" where
  "js_rem a b = sgn a * (\<bar>a\<bar> mod \<bar>b\<bar>)"

definition months :: "string list" where
  "months = [''January'', ''February'', ''March'', ''April'', ''May'', ''June'',
             ''July'', ''August'', ''September'', ''October'', ''November'', ''December'']"

text \<open>Reading an array at an index: \<open>None\<close> is JavaScript's \<open>undefined\<close>.\<close>

definition js_index :: "'a list \<Rightarrow> int \<Rightarrow> 'a option" where
  "js_index xs i = (if 0 \<le> i \<and> i < int (length xs) then Some (xs ! nat i) else None)"

definition adjustedMonth :: "int \<Rightarrow> int \<Rightarrow> int" where
  "adjustedMonth currentMonth increment = js_rem (currentMonth + increment - 1) 12 + 1"

definition adjustedYear :: "int \<Rightarrow> int \<Rightarrow> int \<Rightarrow> int" where
  "adjustedYear currentMonth currentYear increment =
     (if adjustedMonth currentMonth increment = 12 \<and> increment = -1 then currentYear - 1
      else if adjustedMonth currentMonth increment = 1 \<and> increment = 1 then currentYear + 1
      else currentYear)"

definition selectedMonth :: "int \<Rightarrow> int \<Rightarrow> string option" where
  "selectedMonth currentMonth increment =
     js_index months (adjustedMonth currentMonth increment - 1)"

text \<open>\<open>Number.prototype.toString\<close> on an integer: its decimal digits.\<close>

fun nat_digits :: "nat \<Rightarrow> string" where
  "nat_digits n =
     (if n < 10 then [char_of (48 + n)] else nat_digits (n div 10) @ [char_of (48 + n mod 10)])"

declare nat_digits.simps [simp del]

definition number_toString :: "int \<Rightarrow> string" where
  "number_toString i = (if i < 0 then CHR ''-'' # nat_digits (nat (- i)) else nat_digits (nat i))"

subsection \<open>Values, faults and the state of a run\<close>

text \<open>
  An element handle of the browser is a number. A variable that holds the result of a
  lookup is \<open>null\<close>, one element or an array of elements.
\<close>

type_synonym elem = nat

datatype located = Null | Single elem | Many "elem list"

definition truthy :: "located \<Rightarrow> bool" where
  "truthy v = (v \<noteq> Null)"

text \<open>An error object, with the two properties the program reads.\<close>

datatype fault = Fault (err_name: string) (err_message: string)

definition type_error :: fault where
  "type_error = Fault ''TypeError'' []"

text \<open>
  A call returns a value, throws, or ends the process (\<open>process.exit\<close>, which no
  \<open>catch\<close> or \<open>finally\<close> sees).
\<close>

datatype 'a outcome = Return 'a | Throw fault | Exit nat

text \<open>
  The state is the world outside the program, of any type \<open>'w\<close>, and the list of the
  calls that the properties below observe: probes, timers, page loads and the end of the
  browser session.
\<close>

datatype event = AxiosGet string nat | SetTimeout nat | DriverGet string | DriverQuit

record 'w state =
  world :: 'w
  trace :: "event list"

type_synonym ('w, 'a) js = "'w state \<Rightarrow> 'a outcome \<times> 'w state"

definition ret :: "'a \<Rightarrow> ('w, 'a) js" where
  "ret x = (\<lambda>s. (Return x, s))"

definition throw :: "fault \<Rightarrow> ('w, 'a) js" where
  "throw e = (\<lambda>s. (Throw e, s))"

definition exit :: "nat \<Rightarrow> ('w, 'a) js" where
  "exit c = (\<lambda>s. (Exit c, s))"

definition bind :: "('w, 'a) js \<Rightarrow> ('a \<Rightarrow> ('w, 'b) js) \<Rightarrow> ('w, 'b) js" where
  "bind m f = (\<lambda>s. case m s of
       (Return x, s1) \<Rightarrow> f x s1
     | (Throw e, s1) \<Rightarrow> (Throw e, s1)
     | (Exit c, s1) \<Rightarrow> (Exit c, s1))"

definition try_catch :: "('w, 'a) js \<Rightarrow> (fault \<Rightarrow> ('w, 'a) js) \<Rightarrow> ('w, 'a) js" where
  "try_catch m handler = (\<lambda>s. case m s of
       (Throw e, s1) \<Rightarrow> handler e s1
     | (Return x, s1) \<Rightarrow> (Return x, s1)
     | (Exit c, s1) \<Rightarrow> (Exit c, s1))"

text \<open>
  \<open>for (const x of xs) body\<close> and the counting \<open>for\<close> loops, with the variables the
  body updates as accumulator. \<open>continue\<close> is a body that returns the accumulator.
\<close>

fun for_of :: "'a list \<Rightarrow> ('a \<Rightarrow> 'b \<Rightarrow> ('w, 'b) js) \<Rightarrow> 'b \<Rightarrow> ('w, 'b) js" where
  "for_of [] body acc s = (Return acc, s)"
| "for_of (x # xs) body acc s =
     (case body x acc s of
        (Return acc1, s1) \<Rightarrow> for_of xs body acc1 s1
      | (Throw e, s1) \<Rightarrow> (Throw e, s1)
      | (Exit c, s1) \<Rightarrow> (Exit c, s1))"

text \<open>
  Assignment \<open>obj[key] = v\<close> to an object created by \<open>{}\<close>, as the list of its own
  properties: a new key is added at the end, an old key keeps its place. The key
  \<open>__proto__\<close> is the accessor of \<open>Object.prototype\<close>: assigning to it creates no
  property.
\<close>

definition obj_set :: "(string \<times> 'v) list \<Rightarrow> string \<Rightarrow> 'v \<Rightarrow> (string \<times> 'v) list" where
  "obj_set obj key v = (if key = ''__proto__'' then obj else AList.update key v obj)"

definition obj_keys :: "(string \<times> 'v) list \<Rightarrow> string set" where
  "obj_keys obj = fst ` set obj"

subsection \<open>The libraries\<close>

text \<open>
  The locator strategies \<open>By.ID\<close>, \<open>By.NAME\<close>, \<open>By.TAG_NAME\<close> and \<open>By.XPATH\<close>, and
  the receiver of \<open>findElement\<close>: the driver or an element.
\<close>

datatype strategy = By_ID | By_NAME | By_TAG_NAME | By_XPATH

datatype scope = Driver | Element elem

text \<open>
  What the program calls and does not define. A call that can reject or throw returns
  \<open>Inl\<close> of the error. \<open>axios_get\<close> resolves with the status of the response;
  \<open>url_href rel base\<close> is \<open>new URL(rel, base).href\<close>; \<open>date_now\<close> is \<open>getMonth()\<close> and
  \<open>getFullYear()\<close> of \<open>new Date()\<close>. \<open>driver.quit()\<close> and the one-second timer do not
  fail.
\<close>

record 'w env =
  nav_url :: string
  axios_get :: "string \<Rightarrow> nat \<Rightarrow> 'w \<Rightarrow> (fault + nat) \<times> 'w"
  timer :: "nat \<Rightarrow> 'w \<Rightarrow> 'w"
  url_href :: "string \<Rightarrow> string \<Rightarrow> fault + string"
  date_now :: "'w \<Rightarrow> int \<times> int"
  driver_get :: "string \<Rightarrow> 'w \<Rightarrow> (fault + unit) \<times> 'w"
  driver_quit :: "'w \<Rightarrow> 'w"
  driver_sleep :: "nat \<Rightarrow> 'w \<Rightarrow> (fault + unit) \<times> 'w"
  wait_elementLocated :: "strategy \<Rightarrow> string \<Rightarrow> nat \<Rightarrow> 'w \<Rightarrow> (fault + elem) \<times> 'w"
  wait_elementsLocated :: "strategy \<Rightarrow> string \<Rightarrow> nat \<Rightarrow> 'w \<Rightarrow> (fault + elem list) \<times> 'w"
  findElement :: "scope \<Rightarrow> strategy \<Rightarrow> string \<Rightarrow> 'w \<Rightarrow> (fault + elem) \<times> 'w"
  getText :: "elem \<Rightarrow> 'w \<Rightarrow> (fault + string) \<times> 'w"
  click :: "elem \<Rightarrow> 'w \<Rightarrow> (fault + unit) \<times> 'w"
  clear :: "elem \<Rightarrow> 'w \<Rightarrow> (fault + unit) \<times> 'w"
  sendKeys :: "elem \<Rightarrow> string \<Rightarrow> 'w \<Rightarrow> (fault + unit) \<times> 'w"

definition call :: "('w \<Rightarrow> (fault + 'a) \<times> 'w) \<Rightarrow> ('w, 'a) js" where
  "call f = (\<lambda>s. case f (world s) of
       (Inl e, w) \<Rightarrow> (Throw e, s\<lparr>world := w\<rparr>)
     | (Inr x, w) \<Rightarrow> (Return x, s\<lparr>world := w\<rparr>))"

definition emit :: "event \<Rightarrow> ('w, unit) js" where
  "emit ev = (\<lambda>s. (Return (), s\<lparr>trace := trace s @ [ev]\<rparr>))"

definition quit :: "'w env \<Rightarrow> ('w, unit) js" where
  "quit env = (\<lambda>s. (Return (), \<lparr>world = driver_quit env (world s), trace = trace s @ [DriverQuit]\<rparr>))"

text \<open>A method call \<open>v.m()\<close> on a looked-up value: only an element has the method.\<close>

definition on_element :: "located \<Rightarrow> (elem \<Rightarrow> 'w \<Rightarrow> (fault + 'a) \<times> 'w) \<Rightarrow> ('w, 'a) js" where
  "on_element v m = (case v of Single e \<Rightarrow> call (m e) | _ \<Rightarrow> throw type_error)"

definition global_timeout :: nat where
  "global_timeout = 10000"

subsection \<open>checkInternet\<close>

text \<open>
  One round of the loop up to the end of its \<open>try\<close> statement: \<open>True\<close> when the
  function returns \<open>true\<close> there, \<open>False\<close> when control goes on to the retry.
\<close>

definition checkInternet_attempt :: "'w env \<Rightarrow> string \<Rightarrow> nat \<Rightarrow> ('w, bool) js" where
  "checkInternet_attempt env url timeout =
     try_catch
       (bind (emit (AxiosGet url timeout)) (\<lambda>_.
        bind (call (axios_get env url timeout)) (\<lambda>status.
        if status = 200 then ret True else ret False)))
       (\<lambda>error. ret False)"

function checkInternet_loop ::
  "'w env \<Rightarrow> string \<Rightarrow> nat \<Rightarrow> nat \<Rightarrow> nat \<Rightarrow> ('w, bool) js" where
  "checkInternet_loop env url timeout retries attempt s =
     (if attempt \<le> retries then
        (case checkInternet_attempt env url timeout s of
           (Return True, s1) \<Rightarrow> (Return True, s1)
         | (Return False, s1) \<Rightarrow>
             checkInternet_loop env url timeout retries (attempt + 1)
               (if attempt < retries
                then \<lparr>world = timer env 1000 (world s1), trace = trace s1 @ [SetTimeout 1000]\<rparr>
                else s1)
         | (Throw e, s1) \<Rightarrow> (Throw e, s1)
         | (Exit c, s1) \<Rightarrow> (Exit c, s1))
      else bind (quit env) (\<lambda>_. exit 1) s)"
  by pat_completeness auto
termination
  by (relation "measure (\<lambda>(env, url, timeout, retries, attempt, s). retries + 1 - attempt)") auto

declare checkInternet_loop.simps [simp del]

definition checkInternet :: "'w env \<Rightarrow> string \<Rightarrow> nat \<Rightarrow> nat \<Rightarrow> ('w, bool) js" where
  "checkInternet env url timeout retries = checkInternet_loop env url timeout retries 1"

text \<open>
  The first statement of main (lines 275 to 279), followed by the rest of its \<open>try\<close>
  block.
\<close>

definition main_connect :: "'w env \<Rightarrow> ('w, 'a) js \<Rightarrow> ('w, 'a) js" where
  "main_connect env rest =
     bind (checkInternet env (nav_url env) global_timeout 3) (\<lambda>connected.
     if \<not> connected then bind (quit env) (\<lambda>_. exit 1) else rest)"

subsection \<open>navigate\<close>

definition navigate :: "'w env \<Rightarrow> string \<Rightarrow> ('w, unit) js" where
  "navigate env url =
     bind (call (\<lambda>w.
        (if list_ex (\<lambda>keyword. str_includes (toLowerCase url) keyword)
              [''overtime'', ''officialbusiness'', ''leave'']
         then url_href env (''filing/'' @ url) (nav_url env)
         else url_href env url (nav_url env), w))) (\<lambda>full_url.
     try_catch
       (bind (emit (DriverGet full_url)) (\<lambda>_. call (driver_get env full_url)))
       (\<lambda>error. bind (quit env) (\<lambda>_. exit 1)))"

subsection \<open>processElement\<close>

text \<open>
  \<open>parent || driver\<close> is the receiver of \<open>findElement\<close>; an array has no such method,
  and the call on it throws inside the \<open>try\<close>.
\<close>

definition processElement ::
  "'w env \<Rightarrow> located \<Rightarrow> strategy \<Rightarrow> string option \<Rightarrow> bool \<Rightarrow> nat \<Rightarrow> ('w, located) js" where
  "processElement env parent by locator multiple timeout =
     (case locator of
        None \<Rightarrow> ret Null
      | Some loc \<Rightarrow>
          if loc = [] then ret Null
          else
            try_catch
              (if multiple then
                 bind (call (wait_elementsLocated env by loc timeout)) (\<lambda>elements.
                 ret (Many elements))
               else
                 bind (call (wait_elementLocated env by loc timeout)) (\<lambda>element.
                 bind (case parent of
                         Null \<Rightarrow> call (findElement env Driver by loc)
                       | Single p \<Rightarrow> call (findElement env (Element p) by loc)
                       | Many ps \<Rightarrow> throw type_error) (\<lambda>found.
                 ret (Single found))))
              (\<lambda>error.
                 if err_name error = ''TimeoutError'' then ret Null
                 else if err_name error = ''NoSuchElementError'' then ret Null
                 else ret Null))"

subsection \<open>scrapeTableData\<close>

text \<open>
  \<open>for (const x of v)\<close> needs an array; \<open>v[i]\<close> on an element is \<open>undefined\<close>, as it
  is on an array past its end.
\<close>

definition elements_of :: "located \<Rightarrow> ('w, elem list) js" where
  "elements_of v = (case v of Many es \<Rightarrow> ret es | _ \<Rightarrow> throw type_error)"

definition element_at :: "located \<Rightarrow> nat \<Rightarrow> elem option" where
  "element_at v i = (case v of Many es \<Rightarrow> js_index es (int i) | _ \<Rightarrow> None)"

text \<open>
  Lines 157 to 180: the table and its header keys; \<open>None\<close> is one of the three early
  returns of the empty \<open>tableData\<close>.
\<close>

definition scrape_table_head :: "'w env \<Rightarrow> ('w, (located \<times> string list) option) js" where
  "scrape_table_head env =
     bind (processElement env Null By_TAG_NAME (Some ''table'') False global_timeout) (\<lambda>table.
     if \<not> truthy table then ret None
     else
     bind (processElement env table By_TAG_NAME (Some ''thead'') False global_timeout) (\<lambda>header.
     if \<not> truthy header then ret None
     else
     bind (processElement env header By_TAG_NAME (Some ''th'') True global_timeout) (\<lambda>headerElems.
     if \<not> truthy headerElems then ret None
     else
     bind (elements_of headerElems) (\<lambda>elems.
     bind (for_of elems (\<lambda>headerElem headers.
             bind (call (getText env headerElem)) (\<lambda>text.
             ret (headers @ [normalize_header text]))) []) (\<lambda>headers.
     ret (Some (table, headers)))))))"

text \<open>Lines 197 to 205: the record of one row.\<close>

definition build_row :: "'w env \<Rightarrow> string list \<Rightarrow> located \<Rightarrow> ('w, (string \<times> string) list) js" where
  "build_row env headers cells =
     for_of [0..<length headers] (\<lambda>i rowData.
       let header = headers ! i in
       if str_includes header ''action'' \<or> str_includes header ''attachment'' then ret rowData
       else
         bind (case element_at cells i of
                 Some cell \<Rightarrow> bind (call (getText env cell)) (\<lambda>text. ret (trim text))
               | None \<Rightarrow> ret '''') (\<lambda>cellText.
         ret (obj_set rowData header cellText))) []"

text \<open>Lines 182 to 209.\<close>

definition scrape_table_body ::
  "'w env \<Rightarrow> located \<Rightarrow> string list \<Rightarrow> ('w, (string \<times> string) list list) js" where
  "scrape_table_body env table headers =
     bind (processElement env table By_TAG_NAME (Some ''tbody'') False global_timeout) (\<lambda>tbody.
     if \<not> truthy tbody then ret []
     else
     bind (processElement env tbody By_TAG_NAME (Some ''tr'') True global_timeout) (\<lambda>rows.
     if \<not> truthy rows then ret []
     else
     bind (elements_of rows) (\<lambda>elems.
     for_of elems (\<lambda>row tableData.
       bind (processElement env (Single row) By_TAG_NAME (Some ''td'') True global_timeout) (\<lambda>cells.
       if \<not> truthy cells then ret tableData
       else
       bind (build_row env headers cells) (\<lambda>rowData.
       ret (tableData @ [rowData])))) [])))"

definition scrapeTableData :: "'w env \<Rightarrow> string \<Rightarrow> ('w, (string \<times> string) list list) js" where
  "scrapeTableData env url =
     bind (scrape_table_head env) (\<lambda>head.
     case head of
       None \<Rightarrow> ret []
     | Some (table, headers) \<Rightarrow> scrape_table_body env table headers)"

subsection \<open>The report loop of main\<close>

text \<open>A \<open>try\<close> block whose \<open>catch\<close> ends the round with \<open>continue\<close>: did it complete?\<close>

definition succeeds :: "('w, 'a) js \<Rightarrow> ('w, bool) js" where
  "succeeds m = try_catch (bind m (\<lambda>_. ret True)) (\<lambda>error. ret False)"

text \<open>A value in a template literal.\<close>

definition template :: "string option \<Rightarrow> string" where
  "template v = (case v of Some s \<Rightarrow> s | None \<Rightarrow> ''undefined'')"

text \<open>
  Lines 301 to 379: one round of the loop over \<open>increment\<close>; the result is \<open>tableData\<close>
  after the round.
\<close>

definition attendance_pass ::
  "'w env \<Rightarrow> string \<Rightarrow> int \<Rightarrow> int \<Rightarrow> int \<Rightarrow> (string \<times> string) list list list
     \<Rightarrow> ('w, (string \<times> string) list list list) js" where
  "attendance_pass env url currentMonth currentYear increment tableData =
     bind (processElement env Null By_ID (Some ''month'') False global_timeout) (\<lambda>monthSelect.
     bind (processElement env Null By_NAME (Some ''year'') False global_timeout) (\<lambda>yearInput.
     if truthy monthSelect \<and> truthy yearInput then
       bind (succeeds (on_element monthSelect (click env))) (\<lambda>clicked.
       if \<not> clicked then ret tableData
       else
       bind (processElement env monthSelect By_XPATH
               (Some (''.//option[contains(text(), '' @ [CHR 0x27]
                       @ template (selectedMonth currentMonth increment) @ [CHR 0x27] @ '')]''))
               False global_timeout) (\<lambda>monthOption.
       if \<not> truthy monthOption then ret tableData
       else
       bind (succeeds (on_element monthOption (click env))) (\<lambda>selected.
       if \<not> selected then ret tableData
       else
       bind (succeeds
               (bind (on_element yearInput (clear env)) (\<lambda>_.
                on_element yearInput (\<lambda>e. sendKeys env e
                  (number_toString (adjustedYear currentMonth currentYear increment)))))) (\<lambda>typed.
       if \<not> typed then ret tableData
       else
       bind (processElement env Null By_XPATH
               (Some (''//button[@type='' @ [CHR 0x27] @ ''submit'' @ [CHR 0x27]
                       @ '' and contains(text(), '' @ [CHR 0x27] @ ''Search'' @ [CHR 0x27] @ '')]''))
               False global_timeout) (\<lambda>searchBtn.
       if \<not> truthy searchBtn then ret tableData
       else
       bind (succeeds
               (bind (on_element searchBtn (click env)) (\<lambda>_.
                call (driver_sleep env 2000)))) (\<lambda>searched.
       if \<not> searched then ret tableData
       else
       bind (scrapeTableData env url) (\<lambda>scrapedData.
       if length scrapedData > 0 then ret (tableData @ [scrapedData]) else ret tableData)))))))
     else ret tableData))"

text \<open>Lines 289 to 386: \<open>tableData\<close> of one report.\<close>

definition scrape_report :: "'w env \<Rightarrow> string \<Rightarrow> ('w, (string \<times> string) list list list) js" where
  "scrape_report env url =
     (if str_includes (toLowerCase url) ''attendance'' then
        (\<lambda>s. for_of [-1, 0, 1]
                (attendance_pass env url (fst (date_now env (world s)) + 1)
                   (snd (date_now env (world s))))
                [] s)
      else
        bind (scrapeTableData env url) (\<lambda>scrapedData.
        if length scrapedData > 0 then ret [scrapedData] else ret []))"

text \<open>
  Lines 284 to 394: the loop over the reports; the result is \<open>mainTableData\<close>. main runs
  it on \<open>urlList\<close>.
\<close>

definition urlList :: "string list" where
  "urlList = [''attendance'', ''overtime'', ''officialbusiness'', ''leave'']"

text \<open>Lines 288 to 393: the body of the loop, for one report.\<close>

definition report_step ::
  "'w env \<Rightarrow> string \<Rightarrow> (string \<times> (string \<times> string) list list) list
     \<Rightarrow> ('w, (string \<times> (string \<times> string) list list) list) js" where
  "report_step env url mainTableData =
     bind (navigate env url) (\<lambda>_.
     bind (scrape_report env url) (\<lambda>tableData.
     if length tableData > 0 then ret (obj_set mainTableData url (concat tableData))
     else ret mainTableData))"

definition main_reports ::
  "'w env \<Rightarrow> string list \<Rightarrow> ('w, (string \<times> (string \<times> string) list list) list) js" where
  "main_reports env urls = for_of urls (report_step env) []"

text \<open>Line 200: a header is kept when the loop over the headers does not skip it.\<close>

definition kept :: "string \<Rightarrow> bool" where
  "kept h = (\<not> str_includes h ''action'' \<and> \<not> str_includes h ''attachment'')"

text \<open>Lines 388 to 392: what the loop of main does with the \<open>tableData\<close> of one report.\<close>

definition store_report ::
  "(string \<times> (string \<times> string) list list) list \<Rightarrow> string \<times> (string \<times> string) list list list
     \<Rightarrow> (string \<times> (string \<times> string) list list) list" where
  "store_report m y = (if snd y \<noteq> [] then obj_set m (fst y) (concat (snd y)) else m)"

subsection \<open>Notions of the specification\<close>

text \<open>
  A keyword occurs in a name, letter case ignored; the path of a report, with the
  segment \<open>filing/\<close> for the names that match one of the three keywords.
\<close>

definition matches_ci :: "string \<Rightarrow> string \<Rightarrow> bool" where
  "matches_ci keyword name = sublist (toLowerCase keyword) (toLowerCase name)"

definition report_path :: "string \<Rightarrow> string" where
  "report_path name =
     (if list_ex (\<lambda>keyword. matches_ci keyword name) [''overtime'', ''officialbusiness'', ''leave'']
      then ''filing/'' @ name else name)"

text \<open>An HTTP success status: the class 2xx.\<close>

definition http_success :: "nat \<Rightarrow> bool" where
  "http_success status = (200 \<le> status \<and> status < 300)"

text \<open>
  The answers that \<open>n\<close> probes get when they are made one second apart, starting in
  world \<open>w\<close>, and the calls that \<open>n\<close> such probes make.
\<close>

fun probe_results :: "'w env \<Rightarrow> string \<Rightarrow> nat \<Rightarrow> nat \<Rightarrow> 'w \<Rightarrow> (fault + nat) list" where
  "probe_results env url timeout 0 w = []"
| "probe_results env url timeout (Suc n) w =
     (case axios_get env url timeout w of
        (r, w1) \<Rightarrow> r # probe_results env url timeout n (timer env 1000 w1))"

fun probe_trace :: "string \<Rightarrow> nat \<Rightarrow> nat \<Rightarrow> event list" where
  "probe_trace url timeout 0 = []"
| "probe_trace url timeout (Suc 0) = [AxiosGet url timeout]"
| "probe_trace url timeout (Suc (Suc n)) =
     AxiosGet url timeout # SetTimeout 1000 # probe_trace url timeout (Suc n)"

text \<open>
  What every report of the loop yields: the loop of main with the \<open>tableData\<close> of each
  report collected, whether it is empty or not.
\<close>

definition report_yields ::
  "'w env \<Rightarrow> string list \<Rightarrow> ('w, (string \<times> (string \<times> string) list list list) list) js" where
  "report_yields env urls =
     for_of urls (\<lambda>url yields.
       bind (navigate env url) (\<lambda>_.
       bind (scrape_report env url) (\<lambda>tableData.
       ret (yields @ [(url, tableData)])))) []"

subsection \<open>A browser on fixed pages\<close>

text \<open>
  For running the functions on concrete pages: an instance of \<open>env\<close> whose page is a
  list of nodes in document order. A node has a handle, the locators that find it, the
  handles of its ancestors and its text. A lookup from the driver searches the page, a
  lookup from an element searches below it; a wait fails with \<open>TimeoutError\<close> when
  nothing is found. The page shown depends on the number of clicks on the search button so
  far; the probe answers are taken from a list.
\<close>

datatype fx_node =
  FxNode (fx_handle: elem) (fx_locators: "(strategy \<times> string) list") (fx_ancestors: "elem list")
    (fx_text: string)

record fx_world =
  fx_http :: "(fault + nat) list"
  fx_searches :: nat

definition fx_find :: "fx_node list \<Rightarrow> strategy \<Rightarrow> string \<Rightarrow> fx_node list" where
  "fx_find page by loc = filter (\<lambda>n. (by, loc) \<in> set (fx_locators n)) page"

definition fx_within :: "scope \<Rightarrow> fx_node \<Rightarrow> bool" where
  "fx_within sc n = (case sc of Driver \<Rightarrow> True | Element p \<Rightarrow> p \<in> set (fx_ancestors n))"

definition fx_env :: "(nat \<Rightarrow> fx_node list) \<Rightarrow> elem \<Rightarrow> int \<times> int \<Rightarrow> fx_world env" where
  "fx_env pages search_button today =
     \<lparr> nav_url = ''https://tams.example/'',
       axios_get = (\<lambda>url timeout w. case fx_http w of
                      [] \<Rightarrow> (Inl (Fault ''AxiosError'' ''timeout''), w)
                    | r # rs \<Rightarrow> (r, w\<lparr>fx_http := rs\<rparr>)),
       timer = (\<lambda>ms w. w),
       url_href = (\<lambda>rel base. Inr (base @ rel)),
       date_now = (\<lambda>w. today),
       driver_get = (\<lambda>url w. (Inr (), w)),
       driver_quit = (\<lambda>w. w),
       driver_sleep = (\<lambda>ms w. (Inr (), w)),
       wait_elementLocated = (\<lambda>by loc timeout w.
          (case fx_find (pages (fx_searches w)) by loc of
             [] \<Rightarrow> Inl (Fault ''TimeoutError'' [])
           | n # ns \<Rightarrow> Inr (fx_handle n), w)),
       wait_elementsLocated = (\<lambda>by loc timeout w.
          (case fx_find (pages (fx_searches w)) by loc of
             [] \<Rightarrow> Inl (Fault ''TimeoutError'' [])
           | n # ns \<Rightarrow> Inr (map fx_handle (n # ns)), w)),
       findElement = (\<lambda>sc by loc w.
          (case filter (fx_within sc) (fx_find (pages (fx_searches w)) by loc) of
             [] \<Rightarrow> Inl (Fault ''NoSuchElementError'' [])
           | n # ns \<Rightarrow> Inr (fx_handle n), w)),
       getText = (\<lambda>e w.
          (case filter (\<lambda>n. fx_handle n = e) (pages (fx_searches w)) of
             [] \<Rightarrow> Inl (Fault ''StaleElementReferenceError'' [])
           | n # ns \<Rightarrow> Inr (fx_text n), w)),
       click = (\<lambda>e w.
          (Inr (), if e = search_button then w\<lparr>fx_searches := fx_searches w + 1\<rparr> else w)),
       clear = (\<lambda>e w. (Inr (), w)),
       sendKeys = (\<lambda>e keys w. (Inr (), w)) \<rparr>"

definition fx_start :: "(fault + nat) list \<Rightarrow> fx_world state" where
  "fx_start responses = \<lparr>world = \<lparr>fx_http = responses, fx_searches = 0\<rparr>, trace = []\<rparr>"

definition tag :: "string \<Rightarrow> (strategy \<times> string) list" where
  "tag t = [(By_TAG_NAME, t)]"

text \<open>
  A table with the columns Date, Time In, Action and Remarks and two body rows, the first
  with two cells and the second with one.
\<close>

definition page_two_rows :: "fx_node list" where
  "page_two_rows =
     [FxNode 10 (tag ''table'') [] [],
      FxNode 11 (tag ''thead'') [10] [],
      FxNode 12 (tag ''th'') [10, 11] ''Date'',
      FxNode 13 (tag ''th'') [10, 11] '' Time In \<newline>'',
      FxNode 14 (tag ''th'') [10, 11] ''Action'',
      FxNode 15 (tag ''th'') [10, 11] ''Remarks'',
      FxNode 16 (tag ''tbody'') [10] [],
      FxNode 17 (tag ''tr'') [10, 16] [],
      FxNode 18 (tag ''td'') [10, 16, 17] ''2024-01-05'',
      FxNode 19 (tag ''td'') [10, 16, 17] '' 08:00 '',
      FxNode 20 (tag ''tr'') [10, 16] [],
      FxNode 21 (tag ''td'') [10, 16, 20] ''2024-01-06'']"

definition fx_two_rows :: "fx_world env" where
  "fx_two_rows = fx_env (\<lambda>searches. page_two_rows) 0 (0, 2024)"

section \<open>Properties\<close>

subsection \<open>String primitives\<close>

lemma str_includes_sublist: "str_includes s needle = sublist needle s"
  by (induction s) (auto simp: sublist_Cons_right)

lemma char_code_eq: "(c = d) = ((of_char c :: nat) = of_char d)"
  by simp

lemma toLowerCase_char_code:
  "(of_char (toLowerCase_char c) :: nat) =
     (if 65 \<le> (of_char c :: nat) \<and> (of_char c :: nat) \<le> 90 then of_char c + 32 else of_char c)"
  by (simp add: toLowerCase_char_def Let_def)

lemma toLowerCase_char_idem: "toLowerCase_char (toLowerCase_char c) = toLowerCase_char c"
  by (subst char_code_eq) (simp add: toLowerCase_char_code)

lemma toLowerCase_char_space: "is_space (toLowerCase_char c) = is_space c"
  by (auto simp add: is_space_def toLowerCase_char_code)

lemma toLowerCase_char_eq_nl: "(toLowerCase_char c = CHR 0x0A) = (c = CHR 0x0A)"
  by (subst (1 2) char_code_eq) (auto simp add: toLowerCase_char_code)

lemma toLowerCase_char_eq_sp: "(toLowerCase_char c = CHR '' '') = (c = CHR '' '')"
  by (subst (1 2) char_code_eq) (auto simp add: toLowerCase_char_code)

text \<open>The three replacements act on each character of the trimmed text on its own.\<close>

lemma normalize_header_map:
  "normalize_header s =
     map (\<lambda>c. toLowerCase_char (if c = CHR 0x0A \<or> c = CHR '' '' then CHR ''_'' else c)) (trim s)"
  by (simp add: normalize_header_def toLowerCase_def replace_all_def)

lemma last_dropWhile: "dropWhile P xs \<noteq> [] \<Longrightarrow> last (dropWhile P xs) = last xs"
  by (induction xs) (auto split: if_splits)

lemma trim_ends:
  assumes "trim s \<noteq> []"
  shows "\<not> is_space (hd (trim s)) \<and> \<not> is_space (last (trim s))"
proof -
  let ?t = "dropWhile is_space s"
  let ?u = "dropWhile is_space (rev ?t)"
  from assms have u: "?u \<noteq> []" by (simp add: trim_def)
  have t: "?t \<noteq> []"
  proof
    assume "?t = []"
    then have "?u = []" by (simp only: rev.simps dropWhile.simps)
    with u show False by simp
  qed
  have "\<not> is_space (hd ?u)" using u by (rule hd_dropWhile)
  then have l: "\<not> is_space (last (trim s))" using u by (simp add: trim_def last_rev)
  have "last ?u = last (rev ?t)" using u by (rule last_dropWhile)
  then have "last ?u = hd ?t" using t by (simp only: last_rev)
  moreover have "\<not> is_space (hd ?t)" using t by (rule hd_dropWhile)
  ultimately show ?thesis using l u by (simp add: trim_def hd_rev)
qed

lemma trim_fixed:
  assumes "s \<noteq> [] \<Longrightarrow> \<not> is_space (hd s) \<and> \<not> is_space (last s)"
  shows "trim s = s"
proof (cases s)
  case Nil
  then show ?thesis by (simp add: trim_def)
next
  case (Cons c cs)
  with assms have c: "\<not> is_space (hd s)" and l: "\<not> is_space (last s)" by auto
  have "hd (rev s) = last s" using Cons by (simp add: hd_rev)
  with l have "dropWhile is_space (rev s) = rev s"
    by (simp add: dropWhile_eq_self_iff)
  moreover from c have "dropWhile is_space s = s"
    by (simp add: dropWhile_eq_self_iff)
  ultimately show ?thesis by (simp add: trim_def)
qed

lemma key_char_space:
  assumes "\<not> is_space c"
  shows "\<not> is_space (toLowerCase_char (if c = CHR 0x0A \<or> c = CHR '' '' then CHR ''_'' else c))"
proof -
  from assms have "c \<noteq> CHR 0x0A" and "c \<noteq> CHR '' ''"
    by (auto simp add: is_space_def)
  with assms show ?thesis by (simp add: toLowerCase_char_space)
qed

lemma key_char_idem:
  "toLowerCase_char
     (if toLowerCase_char (if c = CHR 0x0A \<or> c = CHR '' '' then CHR ''_'' else c) = CHR 0x0A
         \<or> toLowerCase_char (if c = CHR 0x0A \<or> c = CHR '' '' then CHR ''_'' else c) = CHR '' ''
      then CHR ''_''
      else toLowerCase_char (if c = CHR 0x0A \<or> c = CHR '' '' then CHR ''_'' else c))
   = toLowerCase_char (if c = CHR 0x0A \<or> c = CHR '' '' then CHR ''_'' else c)"
  by (simp add: toLowerCase_char_eq_nl toLowerCase_char_eq_sp toLowerCase_char_idem)

text \<open>
  Claim C6. Header normalization is defined on every string and applying it twice gives
  the same key as applying it once; the header text \<open>" Time In \n"\<close> becomes the key
  \<open>time_in\<close>.
\<close>

theorem normalize_header_idempotent:
  "normalize_header (normalize_header s) = normalize_header s
   \<and> normalize_header ('' Time In '' @ [CHR 0x0A]) = ''time_in''"
proof
  let ?g = "\<lambda>c. toLowerCase_char (if c = CHR 0x0A \<or> c = CHR '' '' then CHR ''_'' else c)"
  have "trim (map ?g (trim s)) = map ?g (trim s)"
  proof (rule trim_fixed)
    assume "map ?g (trim s) \<noteq> []"
    then have ne: "trim s \<noteq> []" by simp
    from trim_ends [OF ne]
    show "\<not> is_space (hd (map ?g (trim s))) \<and> \<not> is_space (last (map ?g (trim s)))"
      using ne key_char_space by (simp add: hd_map last_map)
  qed
  then show "normalize_header (normalize_header s) = normalize_header s"
    using key_char_idem by (simp add: normalize_header_map)
  show "normalize_header ('' Time In '' @ [CHR 0x0A]) = ''time_in''"
    by code_simp
qed

theorem normalize_header_idempotent_witness:
  "normalize_header (normalize_header ''Half Day'') = ''half_day''"
proof -
  have "normalize_header ''Half Day'' = ''half_day''" by code_simp
  with normalize_header_idempotent [of "''Half Day''"] show ?thesis by simp
qed

subsection \<open>Month and year of an attendance pass\<close>

text \<open>
  For every month but January, and for January with the offsets 0 and 1, the month is the
  calendar month shifted by the offset and the year changes only from December to January.
\<close>

lemma month_year_shift:
  assumes "1 \<le> m" and "m \<le> 12" and "i \<in> {-1, 0, 1}" and "\<not> (m = 1 \<and> i = -1)"
  shows "adjustedMonth m i = (m + i - 1) mod 12 + 1
         \<and> selectedMonth m i = Some (months ! nat ((m + i - 1) mod 12))
         \<and> adjustedYear m y i = (if m = 12 \<and> i = 1 then y + 1 else y)"
proof -
  from assms have nonneg: "0 \<le> m + i - 1" by auto
  then have rem: "js_rem (m + i - 1) 12 = (m + i - 1) mod 12"
    by (cases "m + i - 1 = 0") (simp_all add: js_rem_def sgn_if)
  from assms have "(m + i - 1) mod 12 = (if m = 12 \<and> i = 1 then 0 else m + i - 1)"
    by auto
  with rem assms show ?thesis
    by (auto simp add: adjustedMonth_def selectedMonth_def adjustedYear_def js_index_def months_def)
qed

text \<open>
  Claim C1. In January the pass for the previous month computes month number 0, for which
  the table of month names has no entry, and leaves the year as it is: neither December
  nor the year before.
\<close>

theorem january_previous_month:
  "adjustedMonth 1 (-1) = 0 \<and> selectedMonth 1 (-1) = None
   \<and> adjustedYear 1 currentYear (-1) = currentYear"
  by (simp add: adjustedMonth_def selectedMonth_def adjustedYear_def js_rem_def js_index_def)

subsection \<open>The browser on fixed pages\<close>

lemmas js_defs = bind_def try_catch_def emit_def call_def ret_def exit_def quit_def throw_def

lemma fx_env_simps:
  "nav_url (fx_env pages sb today) = ''https://tams.example/''"
  "axios_get (fx_env pages sb today) url timeout w =
     (case fx_http w of [] \<Rightarrow> (Inl (Fault ''AxiosError'' ''timeout''), w)
                    | r # rs \<Rightarrow> (r, w\<lparr>fx_http := rs\<rparr>))"
  "timer (fx_env pages sb today) ms w = w"
  "url_href (fx_env pages sb today) rel base = Inr (base @ rel)"
  "date_now (fx_env pages sb today) w = today"
  "driver_get (fx_env pages sb today) url w = (Inr (), w)"
  "driver_quit (fx_env pages sb today) w = w"
  "driver_sleep (fx_env pages sb today) ms w = (Inr (), w)"
  "wait_elementLocated (fx_env pages sb today) by loc timeout w =
          (case fx_find (pages (fx_searches w)) by loc of
             [] \<Rightarrow> Inl (Fault ''TimeoutError'' [])
           | n # ns \<Rightarrow> Inr (fx_handle n), w)"
  "wait_elementsLocated (fx_env pages sb today) by loc timeout w =
          (case fx_find (pages (fx_searches w)) by loc of
             [] \<Rightarrow> Inl (Fault ''TimeoutError'' [])
           | n # ns \<Rightarrow> Inr (map fx_handle (n # ns)), w)"
  "findElement (fx_env pages sb today) sc by loc w =
          (case filter (fx_within sc) (fx_find (pages (fx_searches w)) by loc) of
             [] \<Rightarrow> Inl (Fault ''NoSuchElementError'' [])
           | n # ns \<Rightarrow> Inr (fx_handle n), w)"
  "getText (fx_env pages sb today) e w =
          (case filter (\<lambda>n. fx_handle n = e) (pages (fx_searches w)) of
             [] \<Rightarrow> Inl (Fault ''StaleElementReferenceError'' [])
           | n # ns \<Rightarrow> Inr (fx_text n), w)"
  "click (fx_env pages sb today) e w =
     (Inr (), if e = sb then w\<lparr>fx_searches := fx_searches w + 1\<rparr> else w)"
  "clear (fx_env pages sb today) e w = (Inr (), w)"
  "sendKeys (fx_env pages sb today) e keys w = (Inr (), w)"
  by (simp_all add: fx_env_def)

lemma page_two_rows_find:
  "fx_find page_two_rows By_TAG_NAME ''table'' = [FxNode 10 (tag ''table'') [] []]"
  "fx_find page_two_rows By_TAG_NAME ''thead'' = [FxNode 11 (tag ''thead'') [10] []]"
  "fx_find page_two_rows By_TAG_NAME ''th'' =
     [FxNode 12 (tag ''th'') [10, 11] ''Date'',
      FxNode 13 (tag ''th'') [10, 11] '' Time In \<newline>'',
      FxNode 14 (tag ''th'') [10, 11] ''Action'',
      FxNode 15 (tag ''th'') [10, 11] ''Remarks'']"
  "fx_find page_two_rows By_TAG_NAME ''tbody'' = [FxNode 16 (tag ''tbody'') [10] []]"
  "fx_find page_two_rows By_TAG_NAME ''tr'' =
     [FxNode 17 (tag ''tr'') [10, 16] [], FxNode 20 (tag ''tr'') [10, 16] []]"
  "fx_find page_two_rows By_TAG_NAME ''td'' =
     [FxNode 18 (tag ''td'') [10, 16, 17] ''2024-01-05'',
      FxNode 19 (tag ''td'') [10, 16, 17] '' 08:00 '',
      FxNode 21 (tag ''td'') [10, 16, 20] ''2024-01-06'']"
  "fx_find page_two_rows By_ID ''month'' = []"
  by (simp_all add: fx_find_def page_two_rows_def tag_def)

subsection \<open>processElement\<close>

lemma processElement_returns:
  "\<exists>v s'. processElement env parent by locator multiple timeout s = (Return v, s')"
  by (simp add: processElement_def js_defs
      split: option.splits prod.splits outcome.splits sum.splits located.splits)

text \<open>
  Claim C2. processElement always returns: it neither throws nor ends the process. When
  the wait of the driver fails, with a timeout or with any other error, the result is
  \<open>null\<close>, and so it is when \<open>findElement\<close> on the scope fails; when the calls succeed, the
  result is the list of elements of the wait (multiple) or the element that \<open>findElement\<close>
  found (single).
\<close>

theorem processElement_never_raises:
  "(\<exists>v s'. processElement env parent by locator multiple timeout s = (Return v, s'))
   \<and> (loc \<noteq> [] \<longrightarrow>
        (\<forall>e w. wait_elementsLocated env by loc timeout (world s) = (Inl e, w) \<longrightarrow>
           fst (processElement env parent by (Some loc) True timeout s) = Return Null)
      \<and> (\<forall>es w. wait_elementsLocated env by loc timeout (world s) = (Inr es, w) \<longrightarrow>
           fst (processElement env parent by (Some loc) True timeout s) = Return (Many es))
      \<and> (\<forall>e w. wait_elementLocated env by loc timeout (world s) = (Inl e, w) \<longrightarrow>
           fst (processElement env parent by (Some loc) False timeout s) = Return Null)
      \<and> (\<forall>el w. wait_elementLocated env by loc timeout (world s) = (Inr el, w) \<longrightarrow>
           parent = (case sc of Driver \<Rightarrow> Null | Element p \<Rightarrow> Single p) \<longrightarrow>
           (\<forall>e w'. findElement env sc by loc w = (Inl e, w') \<longrightarrow>
              fst (processElement env parent by (Some loc) False timeout s) = Return Null)
         \<and> (\<forall>found w'. findElement env sc by loc w = (Inr found, w') \<longrightarrow>
              fst (processElement env parent by (Some loc) False timeout s)
                = Return (Single found))))"
  apply (rule conjI)
   apply (rule processElement_returns)
  apply (auto simp add: processElement_def js_defs split: scope.splits)
  done

theorem processElement_never_raises_witness:
  "fst (processElement fx_two_rows Null By_ID (Some ''month'') True global_timeout (fx_start []))
     = Return Null
   \<and> fst (processElement fx_two_rows Null By_TAG_NAME (Some ''tr'') True global_timeout
            (fx_start [])) = Return (Many [17, 20])
   \<and> fst (processElement fx_two_rows Null By_ID (Some ''month'') False global_timeout
            (fx_start [])) = Return Null
   \<and> fst (processElement fx_two_rows (Single 20) By_TAG_NAME (Some ''thead'') False
            global_timeout (fx_start [])) = Return Null
   \<and> fst (processElement fx_two_rows (Single 20) By_TAG_NAME (Some ''td'') False
            global_timeout (fx_start [])) = Return (Single 21)"
proof -
  let ?w = "world (fx_start [])"
  have timeout: "wait_elementsLocated fx_two_rows By_ID ''month'' global_timeout ?w
                   = (Inl (Fault ''TimeoutError'' []), ?w)"
    and rows: "wait_elementsLocated fx_two_rows By_TAG_NAME ''tr'' global_timeout ?w
                   = (Inr [17, 20], ?w)"
    and timeout1: "wait_elementLocated fx_two_rows By_ID ''month'' global_timeout ?w
                   = (Inl (Fault ''TimeoutError'' []), ?w)"
    and head: "wait_elementLocated fx_two_rows By_TAG_NAME ''thead'' global_timeout ?w
                   = (Inr 11, ?w)"
    and nohead: "findElement fx_two_rows (Element 20) By_TAG_NAME ''thead'' ?w
                   = (Inl (Fault ''NoSuchElementError'' []), ?w)"
    and cell: "wait_elementLocated fx_two_rows By_TAG_NAME ''td'' global_timeout ?w
                   = (Inr 18, ?w)"
    and cell_below: "findElement fx_two_rows (Element 20) By_TAG_NAME ''td'' ?w = (Inr 21, ?w)"
    by (simp_all add: fx_two_rows_def fx_env_simps page_two_rows_find fx_start_def fx_within_def)
  note inst = processElement_never_raises [of fx_two_rows _ _ _ _ global_timeout "fx_start []"]
  from inst [of _ By_ID _ _ "''month''"] timeout
  have a: "fst (processElement fx_two_rows Null By_ID (Some ''month'') True global_timeout
                 (fx_start [])) = Return Null"
    by simp
  from inst [of _ By_TAG_NAME _ _ "''tr''"] rows
  have b: "fst (processElement fx_two_rows Null By_TAG_NAME (Some ''tr'') True global_timeout
                 (fx_start [])) = Return (Many [17, 20])"
    by simp
  from inst [of _ By_ID _ _ "''month''"] timeout1
  have c: "fst (processElement fx_two_rows Null By_ID (Some ''month'') False global_timeout
                 (fx_start [])) = Return Null"
    by simp
  from inst [of "Single 20" By_TAG_NAME _ _ "''thead''" "Element 20"] head nohead
  have d: "fst (processElement fx_two_rows (Single 20) By_TAG_NAME (Some ''thead'') False
                 global_timeout (fx_start [])) = Return Null"
    by simp
  from inst [of "Single 20" By_TAG_NAME _ _ "''td''" "Element 20"] cell cell_below
  have e: "fst (processElement fx_two_rows (Single 20) By_TAG_NAME (Some ''td'') False
                 global_timeout (fx_start [])) = Return (Single 21)"
    by simp
  from a b c d e show ?thesis by simp
qed

text \<open>With the multiplicity flag set the parent is not used: the search is the driver's.\<close>

lemma processElement_multiple_ignores_parent:
  "processElement env parent by locator True timeout
     = processElement env Null by locator True timeout"
  by (cases locator) (simp_all add: processElement_def)

text \<open>
  Claim C3. On the page with two rows, the cells looked up with the second row (element
  20) as parent are the cells of the whole page, 18, 19 and 21, of which only 21 lies in
  that row. The lookup of a single cell with the same parent does stay in the row.
\<close>

theorem cells_of_another_row:
  "fst (processElement fx_two_rows (Single 20) By_TAG_NAME (Some ''td'') True global_timeout
          (fx_start [])) = Return (Many [18, 19, 21])
   \<and> map fx_handle (filter (fx_within (Element 20)) (fx_find page_two_rows By_TAG_NAME ''td''))
       = [21]
   \<and> fst (processElement fx_two_rows (Single 20) By_TAG_NAME (Some ''td'') False global_timeout
          (fx_start [])) = Return (Single 21)"
  by (simp add: processElement_def js_defs fx_env_simps fx_two_rows_def fx_start_def
      page_two_rows_find fx_within_def)

subsection \<open>checkInternet\<close>

lemma checkInternet_attempt_cases:
  "checkInternet_attempt env url timeout s =
     (Return (fst (axios_get env url timeout (world s)) = Inr 200),
      \<lparr>world = snd (axios_get env url timeout (world s)),
        trace = trace s @ [AxiosGet url timeout]\<rparr>)"
  by (simp add: checkInternet_attempt_def js_defs split: prod.splits sum.splits)

lemma probe_trace_step:
  "0 < k \<Longrightarrow> AxiosGet url timeout # SetTimeout 1000 # probe_trace url timeout k
     = probe_trace url timeout (Suc k)"
  by (cases k) simp_all

text \<open>
  The loop from round \<open>attempt\<close> on, with \<open>n\<close> rounds left: it returns \<open>true\<close> at the
  first answer with status 200, and ends the process after \<open>n\<close> other answers.
\<close>

lemma checkInternet_loop_run:
  assumes "retries + 1 = attempt + n"
  shows "fst (checkInternet_loop env url timeout retries attempt s) =
           (if length (takeWhile (\<lambda>r. r \<noteq> Inr 200) (probe_results env url timeout n (world s))) < n
            then Return True else Exit 1)
       \<and> trace (snd (checkInternet_loop env url timeout retries attempt s)) =
           trace s @
           (if length (takeWhile (\<lambda>r. r \<noteq> Inr 200) (probe_results env url timeout n (world s))) < n
            then probe_trace url timeout
                   (Suc (length (takeWhile (\<lambda>r. r \<noteq> Inr 200)
                      (probe_results env url timeout n (world s)))))
            else probe_trace url timeout n @ [DriverQuit])"
  using assms
proof (induction n arbitrary: attempt s)
  case 0
  then have "\<not> attempt \<le> retries" by simp
  then show ?case
    by (subst (1 2) checkInternet_loop.simps) (simp add: js_defs)
next
  case (Suc n)
  then have le: "attempt \<le> retries" by simp
  obtain r w1 where ax: "axios_get env url timeout (world s) = (r, w1)"
    by (cases "axios_get env url timeout (world s)")
  show ?case
  proof (cases "r = Inr 200")
    case True
    with le ax show ?thesis
      by (subst (1 2) checkInternet_loop.simps) (simp add: checkInternet_attempt_cases)
  next
    case False
    let ?s2 = "if attempt < retries
               then \<lparr>world = timer env 1000 w1,
                      trace = (trace s @ [AxiosGet url timeout]) @ [SetTimeout 1000]\<rparr>
               else \<lparr>world = w1, trace = trace s @ [AxiosGet url timeout]\<rparr>"
    have unfold: "checkInternet_loop env url timeout retries attempt s
                  = checkInternet_loop env url timeout retries (attempt + 1) ?s2"
      using le ax False
      by (subst checkInternet_loop.simps) (simp add: checkInternet_attempt_cases)
    from Suc.prems have next_eq: "retries + 1 = (attempt + 1) + n" by simp
    note IH = Suc.IH [OF next_eq, of ?s2]
    show ?thesis
    proof (cases n)
      case 0
      with Suc.prems have "\<not> attempt < retries" by simp
      with IH 0 ax False show ?thesis
        by (simp add: unfold)
    next
      case (Suc m)
      with Suc.prems have lt: "attempt < retries" by simp
      with IH ax False Suc show ?thesis
        by (simp add: unfold probe_trace_step del: probe_results.simps probe_trace.simps)
           (simp add: probe_trace_step [symmetric])
    qed
  qed
qed

lemma three: "(3::nat) = Suc (Suc (Suc 0))"
  by simp

lemma probe_trace_count:
  "length (filter (\<lambda>e. e = AxiosGet url timeout) (probe_trace url timeout n)) = n"
  by (induction url timeout n rule: probe_trace.induct) simp_all

text \<open>
  Claim C8, as the code has it. With the three rounds of main, checkInternet makes at most
  three probes, one second apart, returns \<open>true\<close> at the first answer whose status is
  200, and after three other answers ends the browser session and the process with code 1.
  An answer with another status, a success status such as 204 among them, is a failed
  round.
\<close>

theorem checkInternet_three_attempts:
  "let answers = probe_results env url timeout 3 (world s);
       failed = length (takeWhile (\<lambda>r. r \<noteq> Inr 200) answers);
       run = checkInternet env url timeout 3 s;
       calls = drop (length (trace s)) (trace (snd run))
   in trace (snd run) = trace s @ calls
      \<and> length (filter (\<lambda>e. e = AxiosGet url timeout) calls) \<le> 3
      \<and> (if failed < 3
          then fst run = Return True \<and> calls = probe_trace url timeout (Suc failed)
          else fst run = Exit 1 \<and> calls = probe_trace url timeout 3 @ [DriverQuit])"
proof -
  let ?failed = "length (takeWhile (\<lambda>r. r \<noteq> Inr 200) (probe_results env url timeout 3 (world s)))"
  let ?run = "checkInternet env url timeout 3 s"
  from checkInternet_loop_run [of 3 1 3 env url timeout s]
  have outcome: "fst ?run = (if ?failed < 3 then Return True else Exit 1)"
    and calls: "trace (snd ?run) = trace s @
           (if ?failed < 3 then probe_trace url timeout (Suc ?failed)
            else probe_trace url timeout 3 @ [DriverQuit])"
    by (simp_all add: checkInternet_def del: probe_results.simps probe_trace.simps)
  have "length (filter (\<lambda>e. e = AxiosGet url timeout)
          (if ?failed < 3 then probe_trace url timeout (Suc ?failed)
           else probe_trace url timeout 3 @ [DriverQuit])) \<le> 3"
    by (simp add: probe_trace_count del: probe_results.simps probe_trace.simps)
  with outcome calls show ?thesis
    by (simp add: Let_def del: probe_results.simps probe_trace.simps)
qed

theorem checkInternet_three_attempts_witness:
  "fst (checkInternet fx_two_rows ''https://tams.example/'' 10000 3
          (fx_start [Inl (Fault ''AxiosError'' ''timeout''), Inr 200])) = Return True
   \<and> trace (snd (checkInternet fx_two_rows ''https://tams.example/'' 10000 3
          (fx_start [Inl (Fault ''AxiosError'' ''timeout''), Inr 200])))
       = [AxiosGet ''https://tams.example/'' 10000, SetTimeout 1000,
          AxiosGet ''https://tams.example/'' 10000]"
proof -
  let ?s = "fx_start [Inl (Fault ''AxiosError'' ''timeout''), Inr 200]"
  have answers: "probe_results fx_two_rows ''https://tams.example/'' 10000 3 (world ?s)
      = [Inl (Fault ''AxiosError'' ''timeout''), Inr 200, Inl (Fault ''AxiosError'' ''timeout'')]"
    by (simp add: three fx_two_rows_def fx_env_simps fx_start_def)
  have "trace ?s = []" by (simp add: fx_start_def)
  with checkInternet_three_attempts [of fx_two_rows "''https://tams.example/''" 10000 ?s] answers
  show ?thesis
    by (simp add: Let_def del: probe_results.simps)
qed

text \<open>
  Three answers with the success status 204: the first round does not succeed, and the
  process ends with code 1.
\<close>

theorem success_status_204_rejected:
  "http_success 204
   \<and> fst (axios_get fx_two_rows ''https://tams.example/'' 10000
            (world (fx_start [Inr 204, Inr 204, Inr 204]))) = Inr 204
   \<and> fst (checkInternet fx_two_rows ''https://tams.example/'' 10000 3
            (fx_start [Inr 204, Inr 204, Inr 204])) = Exit 1"
  by (simp add: http_success_def checkInternet_def checkInternet_loop.simps
      checkInternet_attempt_def js_defs fx_two_rows_def fx_env_simps fx_start_def)

text \<open>
  Claim C10. checkInternet returns \<open>true\<close> or ends the process, whatever the number of
  rounds; so the branch of main for a false result is never taken: main behaves as if the
  test were not there.
\<close>

theorem checkInternet_never_false:
  "(fst (checkInternet env url timeout retries s) = Return True
      \<or> fst (checkInternet env url timeout retries s) = Exit 1)
   \<and> main_connect env rest
       = bind (checkInternet env (nav_url env) global_timeout 3) (\<lambda>connected. rest)"
proof
  have run: "fst (checkInternet env url timeout retries s) = Return True
      \<or> fst (checkInternet env url timeout retries s) = Exit 1" for url timeout retries s
    using checkInternet_loop_run [of retries 1 retries env url timeout s]
    by (simp add: checkInternet_def del: probe_results.simps probe_trace.simps)
  show "fst (checkInternet env url timeout retries s) = Return True
      \<or> fst (checkInternet env url timeout retries s) = Exit 1"
    by (rule run)
  show "main_connect env rest
       = bind (checkInternet env (nav_url env) global_timeout 3) (\<lambda>connected. rest)"
  proof
    fix t
    from run [of "nav_url env" global_timeout 3 t]
    show "main_connect env rest t
       = bind (checkInternet env (nav_url env) global_timeout 3) (\<lambda>connected. rest) t"
      by (cases "checkInternet env (nav_url env) global_timeout 3 t")
         (auto simp add: main_connect_def bind_def)
  qed
qed

theorem checkInternet_never_false_witness:
  "fst (checkInternet fx_two_rows ''https://tams.example/'' 10000 3 (fx_start [])) = Exit 1
   \<and> fst (main_connect fx_two_rows (ret ()) (fx_start [Inr 200])) = Return ()"
  using checkInternet_never_false [of fx_two_rows "''https://tams.example/''" 10000 3
      "fx_start []" "ret ()"]
  by (simp add: checkInternet_def checkInternet_loop.simps checkInternet_attempt_def js_defs
      fx_two_rows_def fx_env_simps fx_start_def global_timeout_def)

subsection \<open>navigate\<close>

lemma keywords_lower:
  "toLowerCase ''overtime'' = ''overtime''"
  "toLowerCase ''officialbusiness'' = ''officialbusiness''"
  "toLowerCase ''leave'' = ''leave''"
  by code_simp+

lemma navigate_path:
  "(if list_ex (\<lambda>keyword. str_includes (toLowerCase url) keyword)
         [''overtime'', ''officialbusiness'', ''leave'']
    then url_href env (''filing/'' @ url) (nav_url env)
    else url_href env url (nav_url env))
   = url_href env (report_path url) (nav_url env)"
  by (simp add: report_path_def matches_ci_def keywords_lower str_includes_sublist)

lemma navigate_alt:
  "navigate env url =
     bind (call (\<lambda>w. (url_href env (report_path url) (nav_url env), w))) (\<lambda>full_url.
     try_catch
       (bind (emit (DriverGet full_url)) (\<lambda>_. call (driver_get env full_url)))
       (\<lambda>error. bind (quit env) (\<lambda>_. exit 1)))"
  unfolding navigate_def navigate_path ..

text \<open>
  Claim C9. navigate asks the browser for the URL that joins the path of the report to
  the base URL, where the path is the name with \<open>filing/\<close> in front exactly when the
  name matches one of the keywords overtime, officialbusiness and leave, letter case
  ignored; the path of \<open>attendance\<close> is the name alone. A failed page load ends the browser
  session and the process.
\<close>

theorem navigate_target:
  assumes "url_href env (report_path url) (nav_url env) = Inr full_url"
  shows "((fst (navigate env url s) = Return ()
            \<and> trace (snd (navigate env url s)) = trace s @ [DriverGet full_url])
          \<or> (fst (navigate env url s) = Exit 1
            \<and> trace (snd (navigate env url s)) = trace s @ [DriverGet full_url, DriverQuit]))
         \<and> report_path ''attendance'' = ''attendance''"
proof
  show "(fst (navigate env url s) = Return ()
            \<and> trace (snd (navigate env url s)) = trace s @ [DriverGet full_url])
          \<or> (fst (navigate env url s) = Exit 1
            \<and> trace (snd (navigate env url s)) = trace s @ [DriverGet full_url, DriverQuit])"
    using assms
    by (simp add: navigate_alt js_defs split: prod.splits sum.splits)
  have "toLowerCase ''attendance'' = ''attendance''" by code_simp
  then show "report_path ''attendance'' = ''attendance''"
    by (simp add: report_path_def matches_ci_def keywords_lower str_includes_sublist [symmetric])
qed

theorem navigate_target_witness:
  "fst (navigate fx_two_rows ''Leave'' (fx_start [])) = Return ()
   \<and> trace (snd (navigate fx_two_rows ''Leave'' (fx_start [])))
       = [DriverGet ''https://tams.example/filing/Leave'']"
proof -
  have "toLowerCase ''Leave'' = ''leave''" by code_simp
  then have path: "report_path ''Leave'' = ''filing/Leave''"
    by (simp add: report_path_def matches_ci_def keywords_lower str_includes_sublist [symmetric])
  have "url_href fx_two_rows (report_path ''Leave'') (nav_url fx_two_rows)
          = Inr ''https://tams.example/filing/Leave''"
    by (simp add: path fx_two_rows_def fx_env_simps)
  from navigate_target [OF this, of "fx_start []"]
  show ?thesis
    by (simp add: navigate_alt path js_defs fx_two_rows_def fx_env_simps fx_start_def)
qed

subsection \<open>Loops and objects\<close>

lemma for_of_prefix:
  assumes "for_of ys body acc s = (Return r, s')"
    and "I pre acc"
    and "\<And>done x rest a t a' t'. pre @ ys = done @ x # rest \<Longrightarrow> I done a \<Longrightarrow>
           body x a t = (Return a', t') \<Longrightarrow> I (done @ [x]) a'"
  shows "I (pre @ ys) r"
  using assms
proof (induction ys arbitrary: pre acc s)
  case Nil
  then show ?case by simp
next
  case (Cons y ys)
  from Cons.prems(1) obtain a1 s1 where
    step: "body y acc s = (Return a1, s1)" and rest: "for_of ys body a1 s1 = (Return r, s')"
    by (auto split: prod.splits outcome.splits)
  from Cons.prems(3) [of pre y ys acc s a1 s1] Cons.prems(2) step
  have "I (pre @ [y]) a1" by simp
  from Cons.IH [OF rest this] Cons.prems(3)
  show ?case by simp
qed

lemma for_of_invariant:
  assumes "for_of xs body acc s = (Return r, s')"
    and "I [] acc"
    and "\<And>done x rest a t a' t'. xs = done @ x # rest \<Longrightarrow> I done a \<Longrightarrow>
           body x a t = (Return a', t') \<Longrightarrow> I (done @ [x]) a'"
  shows "I xs r"
  using for_of_prefix [of xs body acc s r s' I "[]"] assms by simp

lemma obj_keys_empty: "obj_keys [] = {}"
  by (simp add: obj_keys_def)

lemma obj_keys_set:
  "obj_keys (obj_set obj key v) = (if key = ''__proto__'' then obj_keys obj else insert key (obj_keys obj))"
  by (simp add: obj_keys_def obj_set_def dom_update)

lemma map_of_obj_set:
  "key \<noteq> ''__proto__'' \<Longrightarrow> map_of (obj_set obj key v) = (map_of obj)(key \<mapsto> v)"
  by (simp add: obj_set_def update_conv')

subsection \<open>scrapeTableData\<close>

lemma build_row_step:
  assumes "(let header = headers ! i in
       if str_includes header ''action'' \<or> str_includes header ''attachment'' then ret rowData
       else
         bind (case element_at cells i of
                 Some cell \<Rightarrow> bind (call (getText env cell)) (\<lambda>text. ret (trim text))
               | None \<Rightarrow> ret '''') (\<lambda>cellText.
         ret (obj_set rowData header cellText))) t = (Return a', t')"
  shows "(\<not> kept (headers ! i) \<and> a' = rowData)
       \<or> (kept (headers ! i) \<and> (\<exists>cellText. a' = obj_set rowData (headers ! i) cellText
             \<and> (element_at cells i = None \<longrightarrow> cellText = '''')))"
  using assms
  by (auto simp add: kept_def Let_def js_defs split: if_splits option.splits prod.splits outcome.splits sum.splits)

lemma build_row_keys:
  assumes "build_row env headers cells s = (Return rowData, s')"
  shows "obj_keys rowData = {h \<in> set headers. kept h \<and> h \<noteq> ''__proto__''}"
proof -
  let ?Q = "\<lambda>i. kept (headers ! i) \<and> headers ! i \<noteq> ''__proto__''"
  let ?I = "\<lambda>done rowData. obj_keys rowData = (\<lambda>i. headers ! i) ` {i \<in> set done. ?Q i}"
  have "?I [0..<length headers] rowData"
  proof (rule for_of_invariant [OF assms [unfolded build_row_def], where I = ?I])
    show "?I [] []" by (simp add: obj_keys_empty)
  next
    fix "done" x rest a t a' t'
    assume inv: "?I done a"
      and step: "(let header = headers ! x in
       if str_includes header ''action'' \<or> str_includes header ''attachment'' then ret a
       else
         bind (case element_at cells x of
                 Some cell \<Rightarrow> bind (call (getText env cell)) (\<lambda>text. ret (trim text))
               | None \<Rightarrow> ret '''') (\<lambda>cellText.
         ret (obj_set a header cellText))) t = (Return a', t')"
    have split: "{i \<in> set (done @ [x]). ?Q i}
                 = (if ?Q x then insert x {i \<in> set done. ?Q i} else {i \<in> set done. ?Q i})"
      by auto
    from build_row_step [OF step] show "?I (done @ [x]) a'"
    proof (elim disjE conjE exE)
      assume "\<not> kept (headers ! x)" and "a' = a"
      with inv show ?thesis by (simp only: split) simp
    next
      fix cellText
      assume "kept (headers ! x)" and "a' = obj_set a (headers ! x) cellText"
      with inv show ?thesis by (simp only: split) (simp add: obj_keys_set)
    qed
  qed
  moreover have "(\<lambda>i. headers ! i) ` {i \<in> set [0..<length headers]. ?Q i}
      = {h \<in> set headers. kept h \<and> h \<noteq> ''__proto__''}"
    by (auto simp add: in_set_conv_nth)
  ultimately show ?thesis by simp
qed

text \<open>
  A header whose index is past the end of the array of cells gets the empty string. The
  array is the one the lookup returned for the row, whatever elements it holds.
\<close>

lemma element_at_mono: "element_at cells i = None \<Longrightarrow> i \<le> j \<Longrightarrow> element_at cells j = None"
  by (auto simp add: element_at_def js_index_def split: located.splits if_splits)

lemma upt_split_less:
  assumes "[0..<n] = done @ x # rest" and "i \<in> set done"
  shows "i < x"
proof -
  have "sorted_wrt (<) (done @ x # rest)"
    using assms(1) [symmetric] by (simp add: sorted_wrt_upt del: upt.simps)
  with assms(2) show ?thesis
    by (simp add: sorted_wrt_append)
qed

lemma build_row_missing_cell:
  assumes "build_row env headers cells s = (Return rowData, s')"
    and "i < length headers" and "element_at cells i = None"
    and "kept (headers ! i)" and "headers ! i \<noteq> ''__proto__''"
  shows "map_of rowData (headers ! i) = Some ''''"
proof -
  let ?Q = "\<lambda>i. element_at cells i = None \<and> kept (headers ! i) \<and> headers ! i \<noteq> ''__proto__''"
  let ?I = "\<lambda>done rowData. \<forall>i \<in> set done. ?Q i \<longrightarrow> map_of rowData (headers ! i) = Some ''''"
  have "?I [0..<length headers] rowData"
  proof (rule for_of_invariant [OF assms(1) [unfolded build_row_def], where I = ?I])
    show "?I [] []" by simp
  next
    fix "done" x rest a t a' t'
    assume order: "[0..<length headers] = done @ x # rest"
      and inv: "?I done a"
      and step: "(let header = headers ! x in
       if str_includes header ''action'' \<or> str_includes header ''attachment'' then ret a
       else
         bind (case element_at cells x of
                 Some cell \<Rightarrow> bind (call (getText env cell)) (\<lambda>text. ret (trim text))
               | None \<Rightarrow> ret '''') (\<lambda>cellText.
         ret (obj_set a header cellText))) t = (Return a', t')"
    from build_row_step [OF step] show "?I (done @ [x]) a'"
    proof (elim disjE conjE exE)
      assume "\<not> kept (headers ! x)" and "a' = a"
      with inv show ?thesis by auto
    next
      fix cellText
      assume k: "kept (headers ! x)" and a': "a' = obj_set a (headers ! x) cellText"
        and missing: "element_at cells x = None \<longrightarrow> cellText = ''''"
      show ?thesis
      proof (cases "headers ! x = ''__proto__''")
        case True
        with a' inv show ?thesis by (auto simp add: obj_set_def)
      next
        case False
        show ?thesis
        proof
          fix j
          assume j: "j \<in> set (done @ [x])"
          show "?Q j \<longrightarrow> map_of a' (headers ! j) = Some ''''"
          proof
            assume q: "?Q j"
            have "element_at cells x = None"
            proof (cases "j = x")
              case True
              with q show ?thesis by simp
            next
              case False
              with j have "j \<in> set done" by simp
              from upt_split_less [OF order this] q show ?thesis
                by (auto intro: element_at_mono)
            qed
            with missing have empty: "cellText = ''''" by simp
            show "map_of a' (headers ! j) = Some ''''"
            proof (cases "headers ! j = headers ! x")
              case True
              with a' False empty show ?thesis by (simp add: map_of_obj_set)
            next
              case neq: False
              then have "j \<noteq> x" by auto
              with j have "j \<in> set done" by simp
              with inv q have "map_of a (headers ! j) = Some ''''" by simp
              with a' False neq show ?thesis by (simp add: map_of_obj_set)
            qed
          qed
        qed
      qed
    qed
  qed
  with assms(2-5) show ?thesis by simp
qed

lemma bind_Return:
  "(bind m f s = (Return r, s')) = (\<exists>x s1. m s = (Return x, s1) \<and> f x s1 = (Return r, s'))"
  by (auto simp add: bind_def split: prod.splits outcome.splits)

lemma ret_Return: "(ret x s = (Return r, s')) = (r = x \<and> s' = s)"
  by (auto simp add: ret_def)

lemma throw_Return: "(throw e s = (Return r, s')) = False"
  by (simp add: throw_def)

lemma elements_of_Return:
  "(elements_of v s = (Return es, s')) = (v = Many es \<and> s' = s)"
  by (auto simp add: elements_of_def ret_Return throw_Return split: located.splits)

lemma scrape_table_body_rows:
  assumes "scrape_table_body env table headers s = (Return tableData, s')"
  shows "\<forall>rowData \<in> set tableData. \<exists>cells t t'. build_row env headers cells t = (Return rowData, t')"
proof -
  let ?I = "\<lambda>(done :: elem list) tableData.
              \<forall>rowData \<in> set tableData. \<exists>cells t t'. build_row env headers cells t = (Return rowData, t')"
  have loop: "?I elems tableData"
    if run: "for_of elems (\<lambda>row tableData.
       bind (processElement env (Single row) By_TAG_NAME (Some ''td'') True global_timeout) (\<lambda>cells.
       if \<not> truthy cells then ret tableData
       else
       bind (build_row env headers cells) (\<lambda>rowData.
       ret (tableData @ [rowData])))) [] t = (Return tableData, s')" for elems t
  proof (rule for_of_invariant [OF run, where I = ?I])
    show "?I [] []" by simp
  next
    fix "done" x rest a u a' u'
    assume "?I done a"
      and "bind (processElement env (Single x) By_TAG_NAME (Some ''td'') True global_timeout) (\<lambda>cells.
       if \<not> truthy cells then ret a
       else
       bind (build_row env headers cells) (\<lambda>rowData.
       ret (a @ [rowData]))) u = (Return a', u')"
    then show "?I (done @ [x]) a'"
      by (fastforce simp add: bind_Return ret_Return split: if_splits)
  qed
  from assms show ?thesis
    by (auto simp add: scrape_table_body_def bind_Return ret_Return elements_of_Return
        split: if_splits dest: loop)
qed

lemma scrape_table_head_normalized:
  assumes "scrape_table_head env s = (Return (Some (table, headers)), s')"
  shows "\<exists>texts. headers = map normalize_header texts"
proof -
  let ?I = "\<lambda>(done :: elem list) headers. \<exists>texts. headers = map normalize_header texts"
  have loop: "?I elems headers"
    if run: "for_of elems (\<lambda>headerElem headers.
             bind (call (getText env headerElem)) (\<lambda>text.
             ret (headers @ [normalize_header text]))) [] t = (Return headers, t')" for elems t t'
  proof (rule for_of_invariant [OF run, where I = ?I])
    show "?I [] []" by simp
  next
    fix "done" x rest a u a' u'
    assume "?I done a"
      and "bind (call (getText env x)) (\<lambda>text. ret (a @ [normalize_header text])) u = (Return a', u')"
    then obtain texts headerText where
      "a = map normalize_header texts" and "a' = a @ [normalize_header headerText]"
      by (auto simp add: bind_Return ret_Return)
    then have "a' = map normalize_header (texts @ [headerText])" by simp
    then show "?I (done @ [x]) a'" by blast
  qed
  from assms show ?thesis
    by (auto simp add: scrape_table_head_def bind_Return ret_Return elements_of_Return
        split: if_splits dest: loop)
qed

lemma scrapeTableData_cases:
  assumes "scrapeTableData env url s = (Return tableData, s')"
  shows "(\<exists>s1. scrape_table_head env s = (Return None, s1) \<and> tableData = [])
       \<or> (\<exists>table headers s1. scrape_table_head env s = (Return (Some (table, headers)), s1)
            \<and> scrape_table_body env table headers s1 = (Return tableData, s'))"
proof -
  from assms obtain head s1 where
    head: "scrape_table_head env s = (Return head, s1)"
    and rest: "(case head of None \<Rightarrow> ret []
                | Some (table, headers) \<Rightarrow> scrape_table_body env table headers) s1
               = (Return tableData, s')"
    by (auto simp add: scrapeTableData_def bind_Return)
  show ?thesis
  proof (cases head)
    case None
    with head rest show ?thesis by (simp add: ret_Return)
  next
    case (Some pair)
    with head rest show ?thesis by (cases pair) simp
  qed
qed

lemma kept_sublist: "kept h = (\<not> sublist ''action'' h \<and> \<not> sublist ''attachment'' h)"
  by (simp add: kept_def str_includes_sublist)

text \<open>The run on the page with two rows.\<close>

lemma upt4: "[0..<4] = [0, 1, 2, 3]"
  by (simp add: upt_rec)

lemmas fx_two_rows_simps =
  fx_env_simps [of "\<lambda>searches. page_two_rows" 0 "(0, 2024)", folded fx_two_rows_def]

lemma page_two_rows_text:
  "filter (\<lambda>n. fx_handle n = 12) page_two_rows = [FxNode 12 (tag ''th'') [10, 11] ''Date'']"
  "filter (\<lambda>n. fx_handle n = 13) page_two_rows = [FxNode 13 (tag ''th'') [10, 11] '' Time In \<newline>'']"
  "filter (\<lambda>n. fx_handle n = 14) page_two_rows = [FxNode 14 (tag ''th'') [10, 11] ''Action'']"
  "filter (\<lambda>n. fx_handle n = 15) page_two_rows = [FxNode 15 (tag ''th'') [10, 11] ''Remarks'']"
  "filter (\<lambda>n. fx_handle n = 18) page_two_rows = [FxNode 18 (tag ''td'') [10, 16, 17] ''2024-01-05'']"
  "filter (\<lambda>n. fx_handle n = 19) page_two_rows = [FxNode 19 (tag ''td'') [10, 16, 17] '' 08:00 '']"
  "filter (\<lambda>n. fx_handle n = 21) page_two_rows = [FxNode 21 (tag ''td'') [10, 16, 20] ''2024-01-06'']"
  "fx_find page_two_rows By_NAME ''year'' = []"
  by (simp_all add: page_two_rows_def fx_find_def tag_def)

lemma text_values:
  "normalize_header ''Date'' = ''date''"
  "normalize_header '' Time In \<newline>'' = ''time_in''"
  "normalize_header ''Action'' = ''action''"
  "normalize_header ''Remarks'' = ''remarks''"
  "trim ''2024-01-05'' = ''2024-01-05''"
  "trim '' 08:00 '' = ''08:00''"
  "trim ''2024-01-06'' = ''2024-01-06''"
  by code_simp+

lemmas fx_two_rows_eval = processElement_def js_defs fx_two_rows_simps
  page_two_rows_find page_two_rows_text text_values fx_within_def truthy_def
  elements_of_def element_at_def js_index_def obj_set_def global_timeout_def

lemma head_two_rows:
  "scrape_table_head fx_two_rows s
     = (Return (Some (Single 10, [''date'', ''time_in'', ''action'', ''remarks''])), s)"
  by (simp add: scrape_table_head_def fx_two_rows_eval)

lemma row_two_rows:
  "build_row fx_two_rows [''date'', ''time_in'', ''action'', ''remarks''] (Many [18, 19, 21]) s
     = (Return [(''date'', ''2024-01-05''), (''time_in'', ''08:00''), (''remarks'', '''')], s)"
  by (simp add: build_row_def upt4 fx_two_rows_eval)

lemma body_two_rows:
  "scrape_table_body fx_two_rows (Single 10) [''date'', ''time_in'', ''action'', ''remarks''] s
     = (Return [[(''date'', ''2024-01-05''), (''time_in'', ''08:00''), (''remarks'', '''')],
                [(''date'', ''2024-01-05''), (''time_in'', ''08:00''), (''remarks'', '''')]], s)"
  by (simp add: scrape_table_body_def row_two_rows processElement_def js_defs fx_two_rows_simps
  page_two_rows_find fx_within_def truthy_def elements_of_def global_timeout_def)

lemma scrape_two_rows:
  "scrapeTableData fx_two_rows url s
     = (Return [[(''date'', ''2024-01-05''), (''time_in'', ''08:00''), (''remarks'', '''')],
                [(''date'', ''2024-01-05''), (''time_in'', ''08:00''), (''remarks'', '''')]], s)"
  by (simp add: scrapeTableData_def head_two_rows body_two_rows bind_def)

text \<open>
  Claim C4. No key of a record that scrapeTableData returns contains \<open>action\<close> or
  \<open>attachment\<close> as a contiguous part, whatever the table is.
\<close>

theorem parsed_keys_exclude_columns:
  assumes "scrapeTableData env url s = (Return tableData, s')"
  shows "\<forall>rowData \<in> set tableData. \<forall>key \<in> obj_keys rowData.
           \<not> sublist ''action'' key \<and> \<not> sublist ''attachment'' key"
proof
  fix rowData
  assume row: "rowData \<in> set tableData"
  from scrapeTableData_cases [OF assms] row obtain table headers s1 where
    "scrape_table_body env table headers s1 = (Return tableData, s')"
    by auto
  from scrape_table_body_rows [OF this] row obtain cells t t' where
    "build_row env headers cells t = (Return rowData, t')"
    by blast
  from build_row_keys [OF this]
  show "\<forall>key \<in> obj_keys rowData. \<not> sublist ''action'' key \<and> \<not> sublist ''attachment'' key"
    by (simp add: kept_sublist)
qed

theorem parsed_keys_exclude_columns_witness:
  "fst (scrapeTableData fx_two_rows ''overtime'' (fx_start []))
     = Return [[(''date'', ''2024-01-05''), (''time_in'', ''08:00''), (''remarks'', '''')],
               [(''date'', ''2024-01-05''), (''time_in'', ''08:00''), (''remarks'', '''')]]
   \<and> ''action'' \<notin> obj_keys [(''date'', ''2024-01-05''), (''time_in'', ''08:00''), (''remarks'', '''')]"
proof -
  let ?r = "[(''date'', ''2024-01-05''), (''time_in'', ''08:00''), (''remarks'', '''')]"
  have run: "scrapeTableData fx_two_rows ''overtime'' (fx_start []) = (Return [?r, ?r], fx_start [])"
    by (rule scrape_two_rows)
  from parsed_keys_exclude_columns [OF run]
  have "\<forall>key \<in> obj_keys ?r. \<not> sublist ''action'' key" by simp
  then have "''action'' \<notin> obj_keys ?r" by blast
  with run show ?thesis by simp
qed

subsection \<open>The report loop\<close>

lemma attendance_pass_runs:
  assumes "attendance_pass env url currentMonth currentYear increment tableData s = (Return r, s')"
  shows "r = tableData
       \<or> (\<exists>scrapedData u u'. scrapedData \<noteq> [] \<and> r = tableData @ [scrapedData]
             \<and> scrapeTableData env url u = (Return scrapedData, u'))"
  using assms
  by (auto simp add: attendance_pass_def bind_Return ret_Return split: if_splits)

lemma scrape_report_runs:
  assumes "scrape_report env url s = (Return tableData, s')"
  shows "\<forall>records \<in> set tableData. records \<noteq> []
           \<and> (\<exists>u u'. scrapeTableData env url u = (Return records, u'))"
proof (cases "str_includes (toLowerCase url) ''attendance''")
  case True
  let ?I = "\<lambda>(done :: int list) (tableData :: (string \<times> string) list list list).
              \<forall>records \<in> set tableData. records \<noteq> []
                \<and> (\<exists>u u'. scrapeTableData env url u = (Return records, u'))"
  from assms True have run: "for_of [-1, 0, 1]
                (attendance_pass env url (fst (date_now env (world s)) + 1)
                   (snd (date_now env (world s))))
                [] s = (Return tableData, s')"
    by (simp add: scrape_report_def)
  show ?thesis
  proof (rule for_of_invariant [OF run, where I = ?I])
    show "?I [] []" by simp
  next
    fix "done" x rest a t a' t'
    assume "?I done a"
      and "attendance_pass env url (fst (date_now env (world s)) + 1)
             (snd (date_now env (world s))) x a t = (Return a', t')"
    then show "?I (done @ [x]) a'"
      by (fastforce dest: attendance_pass_runs)
  qed
next
  case False
  with assms show ?thesis
    by (fastforce simp add: scrape_report_def bind_Return ret_Return split: if_splits)
qed

lemma scrape_report_nonempty:
  assumes "scrape_report env url s = (Return tableData, s')"
  shows "[] \<notin> set tableData"
  using scrape_report_runs [OF assms] by auto

text \<open>
  The keys of the records. In one run of scrapeTableData every record has the headers of
  that run, without the excluded ones, as its keys; and when every run of a report reads
  the same header row, so has every record of the report's flattened list. A header
  \<open>__proto__\<close> is left aside.
\<close>

lemma parsed_keys_uniform:
  assumes "scrape_table_head env s = (Return (Some (table, headers)), s1)"
    and "scrapeTableData env url s = (Return tableData, s')"
    and "''__proto__'' \<notin> set headers"
  shows "\<forall>rowData \<in> set tableData.
           obj_keys rowData
             = {h \<in> set headers. \<not> sublist ''action'' h \<and> \<not> sublist ''attachment'' h}"
proof
  fix rowData
  assume row: "rowData \<in> set tableData"
  from scrapeTableData_cases [OF assms(2)] assms(1)
  have "scrape_table_body env table headers s1 = (Return tableData, s')"
    by auto
  from scrape_table_body_rows [OF this] row obtain cells t t' where
    "build_row env headers cells t = (Return rowData, t')"
    by blast
  from build_row_keys [OF this] assms(3)
  show "obj_keys rowData
          = {h \<in> set headers. \<not> sublist ''action'' h \<and> \<not> sublist ''attachment'' h}"
    by (auto simp add: kept_sublist)
qed

lemma report_keys_uniform:
  assumes stable: "\<And>t table hs t1.
             scrape_table_head env t = (Return (Some (table, hs)), t1) \<Longrightarrow> hs = headers"
    and proto: "''__proto__'' \<notin> set headers"
    and report: "scrape_report env url s = (Return tableData, s')"
  shows "\<forall>rowData \<in> set (concat tableData).
           obj_keys rowData
             = {h \<in> set headers. \<not> sublist ''action'' h \<and> \<not> sublist ''attachment'' h}"
proof
  fix rowData
  assume "rowData \<in> set (concat tableData)"
  then obtain records where recs: "records \<in> set tableData" and row: "rowData \<in> set records"
    by auto
  from scrape_report_runs [OF report] recs obtain u u' where
    run: "scrapeTableData env url u = (Return records, u')"
    by blast
  from scrapeTableData_cases [OF run] row obtain table hs u1 where
    head: "scrape_table_head env u = (Return (Some (table, hs)), u1)"
    by auto
  from stable [OF head] have "hs = headers" .
  with head have "scrape_table_head env u = (Return (Some (table, headers)), u1)"
    by simp
  from parsed_keys_uniform [OF this run proto] row
  show "obj_keys rowData
          = {h \<in> set headers. \<not> sublist ''action'' h \<and> \<not> sublist ''attachment'' h}"
    by simp
qed

text \<open>
  Claim C5. On the page with two rows the second body row (element 20) has one cell,
  element 21 with the text 2024-01-06, against four headers. Its record is the second of
  the result: it has the keys date, time_in and remarks, but its date and time_in are the
  texts of the cells 18 and 19 of the first row, where the row's own cell and the empty
  string are due. The cells of a row are looked up with the multiplicity flag set, and that
  lookup is the driver's.
\<close>

theorem short_row_takes_other_cells:
  "fst (processElement fx_two_rows (Single 16) By_TAG_NAME (Some ''tr'') True global_timeout
          (fx_start [])) = Return (Many [17, 20])
   \<and> map fx_text (filter (fx_within (Element 20)) (fx_find page_two_rows By_TAG_NAME ''td''))
       = [''2024-01-06'']
   \<and> fst (scrapeTableData fx_two_rows ''leave'' (fx_start []))
       = Return [[(''date'', ''2024-01-05''), (''time_in'', ''08:00''), (''remarks'', '''')],
                 [(''date'', ''2024-01-05''), (''time_in'', ''08:00''), (''remarks'', '''')]]
   \<and> map_of [(''date'', ''2024-01-05''), (''time_in'', ''08:00''), (''remarks'', '''')] ''time_in''
       = Some ''08:00''"
proof (intro conjI)
  show "fst (processElement fx_two_rows (Single 16) By_TAG_NAME (Some ''tr'') True global_timeout
          (fx_start [])) = Return (Many [17, 20])"
    by (simp add: processElement_def js_defs fx_two_rows_simps page_two_rows_find)
  show "map fx_text (filter (fx_within (Element 20)) (fx_find page_two_rows By_TAG_NAME ''td''))
       = [''2024-01-06'']"
    by (simp add: page_two_rows_find fx_within_def)
  show "fst (scrapeTableData fx_two_rows ''leave'' (fx_start []))
       = Return [[(''date'', ''2024-01-05''), (''time_in'', ''08:00''), (''remarks'', '''')],
                 [(''date'', ''2024-01-05''), (''time_in'', ''08:00''), (''remarks'', '''')]]"
    by (simp add: scrape_two_rows)
  show "map_of [(''date'', ''2024-01-05''), (''time_in'', ''08:00''), (''remarks'', '''')] ''time_in''
       = Some ''08:00''"
    by simp
qed

text \<open>The report loop on the page with two rows.\<close>

lemma navigate_fx:
  "navigate (fx_env pages sb today) url s
     = (Return (), s\<lparr>trace := trace s @ [DriverGet (''https://tams.example/'' @ report_path url)]\<rparr>)"
  by (simp add: navigate_alt js_defs fx_env_simps)

lemma report_names:
  "toLowerCase ''attendance'' = ''attendance''"
  "toLowerCase ''overtime'' = ''overtime''"
  "toLowerCase ''officialbusiness'' = ''officialbusiness''"
  "toLowerCase ''leave'' = ''leave''"
  by code_simp+

lemma attendance_two_rows:
  "attendance_pass fx_two_rows url m y i tableData s = (Return tableData, s)"
  by (simp add: attendance_pass_def fx_two_rows_eval)

lemma report_two_rows:
  "scrape_report fx_two_rows ''attendance'' s = (Return [], s)"
  "scrape_report fx_two_rows ''overtime'' s
     = (Return [[[(''date'', ''2024-01-05''), (''time_in'', ''08:00''), (''remarks'', '''')],
                [(''date'', ''2024-01-05''), (''time_in'', ''08:00''), (''remarks'', '''')]]], s)"
  "scrape_report fx_two_rows ''officialbusiness'' s
     = (Return [[[(''date'', ''2024-01-05''), (''time_in'', ''08:00''), (''remarks'', '''')],
                [(''date'', ''2024-01-05''), (''time_in'', ''08:00''), (''remarks'', '''')]]], s)"
  "scrape_report fx_two_rows ''leave'' s
     = (Return [[[(''date'', ''2024-01-05''), (''time_in'', ''08:00''), (''remarks'', '''')],
                [(''date'', ''2024-01-05''), (''time_in'', ''08:00''), (''remarks'', '''')]]], s)"
  by (simp add: scrape_report_def report_names attendance_two_rows scrape_two_rows bind_def ret_def)+

lemma main_two_rows:
  "fst (main_reports fx_two_rows urlList (fx_start []))
     = Return [(''overtime'',
                 [[(''date'', ''2024-01-05''), (''time_in'', ''08:00''), (''remarks'', '''')],
                  [(''date'', ''2024-01-05''), (''time_in'', ''08:00''), (''remarks'', '''')]]),
               (''officialbusiness'',
                 [[(''date'', ''2024-01-05''), (''time_in'', ''08:00''), (''remarks'', '''')],
                  [(''date'', ''2024-01-05''), (''time_in'', ''08:00''), (''remarks'', '''')]]),
               (''leave'',
                 [[(''date'', ''2024-01-05''), (''time_in'', ''08:00''), (''remarks'', '''')],
                  [(''date'', ''2024-01-05''), (''time_in'', ''08:00''), (''remarks'', '''')]])]"
  by (simp add: main_reports_def urlList_def report_step_def report_two_rows
      navigate_fx [of "\<lambda>searches. page_two_rows" 0 "(0, 2024)", folded fx_two_rows_def]
      bind_def ret_def obj_set_def)

text \<open>A header \<open>__proto__\<close> gives no key.\<close>

lemma proto_header_dropped:
  "obj_keys (obj_set [(''date'', ''2024-02-01'')] ''__proto__'' ''x'') = {''date''}"
  by (simp add: obj_set_def obj_keys_def)

lemma report_step_cases:
  assumes "report_step env url m s = (Return m', s')"
  shows "\<exists>t tableData. navigate env url s = (Return (), t)
           \<and> scrape_report env url t = (Return tableData, s')
           \<and> m' = store_report m (url, tableData)"
  using assms
  by (auto simp add: report_step_def store_report_def bind_Return ret_Return split: if_splits)

lemma main_reports_yields:
  assumes "for_of urls (report_step env) m s = (Return agg, s')"
  shows "\<exists>ys. for_of urls (\<lambda>url yields.
                 bind (navigate env url) (\<lambda>_.
                 bind (scrape_report env url) (\<lambda>tableData.
                 ret (yields @ [(url, tableData)])))) acc s = (Return (acc @ ys), s')
             \<and> map fst ys = urls \<and> agg = foldl store_report m ys
             \<and> (\<forall>y \<in> set ys. \<exists>t t'. scrape_report env (fst y) t = (Return (snd y), t'))"
  using assms
proof (induction urls arbitrary: m s acc)
  case Nil
  then show ?case by simp
next
  case (Cons url urls)
  from Cons.prems obtain m1 s1 where
    step: "report_step env url m s = (Return m1, s1)"
    and rest: "for_of urls (report_step env) m1 s1 = (Return agg, s')"
    by (auto split: prod.splits outcome.splits)
  from report_step_cases [OF step] obtain t tableData where
    nav: "navigate env url s = (Return (), t)"
    and scrape: "scrape_report env url t = (Return tableData, s1)"
    and m1: "m1 = store_report m (url, tableData)"
    by blast
  from Cons.IH [OF rest, of "acc @ [(url, tableData)]"] obtain ys where
    ys: "for_of urls (\<lambda>url yields.
                 bind (navigate env url) (\<lambda>_.
                 bind (scrape_report env url) (\<lambda>tableData.
                 ret (yields @ [(url, tableData)])))) (acc @ [(url, tableData)]) s1
           = (Return ((acc @ [(url, tableData)]) @ ys), s')"
    and fst_ys: "map fst ys = urls" and agg: "agg = foldl store_report m1 ys"
    and runs: "\<forall>y \<in> set ys. \<exists>t t'. scrape_report env (fst y) t = (Return (snd y), t')"
    by blast
  have "for_of (url # urls) (\<lambda>url yields.
                 bind (navigate env url) (\<lambda>_.
                 bind (scrape_report env url) (\<lambda>tableData.
                 ret (yields @ [(url, tableData)])))) acc s
         = (Return (acc @ (url, tableData) # ys), s')"
    using nav scrape ys by (simp add: bind_def ret_def)
  with fst_ys agg m1 runs scrape show ?case
    by (intro exI [of _ "(url, tableData) # ys"]) auto
qed

lemma store_report_keys:
  "obj_keys (foldl store_report m ys)
     = obj_keys m \<union> {fst y | y. y \<in> set ys \<and> snd y \<noteq> [] \<and> fst y \<noteq> ''__proto__''}"
  by (induction ys arbitrary: m) (auto simp add: store_report_def obj_keys_set)

lemma store_report_other:
  "url \<notin> fst ` set ys \<Longrightarrow> map_of (foldl store_report m ys) url = map_of m url"
  by (induction ys arbitrary: m) (auto simp add: store_report_def obj_set_def update_conv')

lemma store_report_value:
  assumes "distinct (map fst ys)" and "(url, tableData) \<in> set ys" and "tableData \<noteq> []"
    and "url \<noteq> ''__proto__''"
  shows "map_of (foldl store_report m ys) url = Some (concat tableData)"
  using assms
proof (induction ys arbitrary: m)
  case Nil
  then show ?case by simp
next
  case (Cons y ys)
  show ?case
  proof (cases "y = (url, tableData)")
    case True
    with Cons.prems have "url \<notin> fst ` set ys" by auto
    moreover from Cons.prems(3) have "store_report m (url, tableData) = obj_set m url (concat tableData)"
      by (simp add: store_report_def)
    ultimately show ?thesis
      using True Cons.prems(4) by (simp add: store_report_other map_of_obj_set)
  next
    case False
    with Cons show ?thesis by simp
  qed
qed

text \<open>
  Claim C7. After the loop of main over the four reports, a report whose passes yielded
  no record is not a key of \<open>mainTableData\<close>, and a report that yielded records is
  stored with the concatenation of the record lists of its passes, which is not empty.
\<close>

theorem empty_report_omitted:
  assumes "main_reports env urlList s = (Return mainTableData, s')"
  shows "\<exists>yields. report_yields env urlList s = (Return yields, s')
           \<and> map fst yields = urlList
           \<and> (\<forall>(url, tableData) \<in> set yields.
                 (concat tableData = [] \<longrightarrow> url \<notin> obj_keys mainTableData)
               \<and> (concat tableData \<noteq> [] \<longrightarrow>
                    map_of mainTableData url = Some (concat tableData)))"
proof -
  from main_reports_yields [OF assms [unfolded main_reports_def], of "[]"]
  obtain ys where
    yields: "report_yields env urlList s = (Return ys, s')"
    and names: "map fst ys = urlList"
    and agg: "mainTableData = foldl store_report [] ys"
    and runs: "\<forall>y \<in> set ys. \<exists>t t'. scrape_report env (fst y) t = (Return (snd y), t')"
    by (auto simp add: report_yields_def)
  have distinct: "distinct (map fst ys)" and proto: "''__proto__'' \<notin> fst ` set ys"
    using names by (simp_all add: urlList_def flip: set_map)
  have "(concat tableData = [] \<longrightarrow> url \<notin> obj_keys mainTableData)
      \<and> (concat tableData \<noteq> [] \<longrightarrow> map_of mainTableData url = Some (concat tableData))"
    if y: "(url, tableData) \<in> set ys" for url tableData
  proof
    show "concat tableData = [] \<longrightarrow> url \<notin> obj_keys mainTableData"
    proof
      assume empty: "concat tableData = []"
      show "url \<notin> obj_keys mainTableData"
      proof
        assume "url \<in> obj_keys mainTableData"
        then obtain td where other: "(url, td) \<in> set ys" and ne: "td \<noteq> []"
          by (auto simp add: agg store_report_keys obj_keys_empty)
        from distinct y other have "td = tableData"
          by (meson eq_key_imp_eq_value)
        moreover
        from runs y have "[] \<notin> set tableData"
          by (fastforce dest: scrape_report_nonempty)
        ultimately show False using empty ne by (cases tableData) auto
      qed
    qed
    show "concat tableData \<noteq> [] \<longrightarrow> map_of mainTableData url = Some (concat tableData)"
    proof
      assume "concat tableData \<noteq> []"
      then have "tableData \<noteq> []" by auto
      moreover from y proto have "url \<noteq> ''__proto__''" by force
      ultimately show "map_of mainTableData url = Some (concat tableData)"
        using store_report_value [OF distinct y] by (simp add: agg)
    qed
  qed
  with yields names show ?thesis by blast
qed

lemma yields_two_rows:
  "fst (report_yields fx_two_rows urlList (fx_start []))
     = Return [(''attendance'', []),
               (''overtime'',
                 [[[(''date'', ''2024-01-05''), (''time_in'', ''08:00''), (''remarks'', '''')],
                   [(''date'', ''2024-01-05''), (''time_in'', ''08:00''), (''remarks'', '''')]]]),
               (''officialbusiness'',
                 [[[(''date'', ''2024-01-05''), (''time_in'', ''08:00''), (''remarks'', '''')],
                   [(''date'', ''2024-01-05''), (''time_in'', ''08:00''), (''remarks'', '''')]]]),
               (''leave'',
                 [[[(''date'', ''2024-01-05''), (''time_in'', ''08:00''), (''remarks'', '''')],
                   [(''date'', ''2024-01-05''), (''time_in'', ''08:00''), (''remarks'', '''')]]])]"
  by (simp add: report_yields_def urlList_def report_two_rows
      navigate_fx [of "\<lambda>searches. page_two_rows" 0 "(0, 2024)", folded fx_two_rows_def]
      bind_def ret_def)

theorem empty_report_omitted_witness:
  "let row = [(''date'', ''2024-01-05''), (''time_in'', ''08:00''), (''remarks'', '''')];
       stored = [(''overtime'', [row, row]), (''officialbusiness'', [row, row]),
                 (''leave'', [row, row])]
   in fst (main_reports fx_two_rows urlList (fx_start [])) = Return stored
      \<and> fst (report_yields fx_two_rows urlList (fx_start []))
          = Return [(''attendance'', []), (''overtime'', [[row, row]]),
                    (''officialbusiness'', [[row, row]]), (''leave'', [[row, row]])]
      \<and> ''attendance'' \<notin> obj_keys stored
      \<and> map_of stored ''leave'' = Some [row, row]"
proof -
  let ?r = "[(''date'', ''2024-01-05''), (''time_in'', ''08:00''), (''remarks'', '''')]"
  let ?agg = "[(''overtime'', [?r, ?r]), (''officialbusiness'', [?r, ?r]), (''leave'', [?r, ?r])]"
  obtain s' where run: "main_reports fx_two_rows urlList (fx_start []) = (Return ?agg, s')"
    using main_two_rows by (cases "main_reports fx_two_rows urlList (fx_start [])") simp
  from empty_report_omitted [OF run] obtain yields where
    all: "report_yields fx_two_rows urlList (fx_start []) = (Return yields, s')
           \<and> map fst yields = urlList
           \<and> (\<forall>(url, tableData) \<in> set yields.
                 (concat tableData = [] \<longrightarrow> url \<notin> obj_keys ?agg)
               \<and> (concat tableData \<noteq> [] \<longrightarrow> map_of ?agg url = Some (concat tableData)))"
    ..
  note yields = all [THEN conjunct1] and each = all [THEN conjunct2, THEN conjunct2]
  from yields yields_two_rows
  have absent: "(''attendance'', []) \<in> set yields"
    and present: "(''leave'', [[?r, ?r]]) \<in> set yields"
    by simp_all
  from each absent
  have "case (''attendance'', []) of (url, tableData) \<Rightarrow>
                 (concat tableData = [] \<longrightarrow> url \<notin> obj_keys ?agg)
               \<and> (concat tableData \<noteq> [] \<longrightarrow> map_of ?agg url = Some (concat tableData))"
    by (rule bspec)
  moreover from each present
  have "case (''leave'', [[?r, ?r]]) of (url, tableData) \<Rightarrow>
                 (concat tableData = [] \<longrightarrow> url \<notin> obj_keys ?agg)
               \<and> (concat tableData \<noteq> [] \<longrightarrow> map_of ?agg url = Some (concat tableData))"
    by (rule bspec)
  ultimately
  have "''attendance'' \<notin> obj_keys ?agg" and "map_of ?agg ''leave'' = Some [?r, ?r]"
    by (simp_all del: map_of.simps)
  with run yields_two_rows show ?thesis by (simp add: Let_def del: map_of.simps)
qed

end
